theory Spec2Isabelle
  imports Main
begin

unbundle bit_operations_syntax

section \<open>Keccak gadget: errors, field elements and the constraint system\<close>

text \<open>
  The module builds the Keccak/SHA-3 hash as a circuit. Every function of the module
  is embedded below under its own name. Exceptions are values: a computation returns
  \<open>Inl e\<close> where the JavaScript throws.
\<close>

datatype error =
    AssertionError string   \<comment> \<open>\<open>assert(cond, msg)\<close> with a false condition\<close>
  | Error string            \<comment> \<open>\<open>throw new Error(msg)\<close>\<close>
  | RangeError              \<comment> \<open>\<open>Array(n)\<close> with an invalid length\<close>
  | TypeError               \<comment> \<open>a method call on \<open>undefined\<close>\<close>

definition assert :: "bool \<Rightarrow> string \<Rightarrow> error + unit" where
  "assert c msg = (if c then Inr () else Inl (AssertionError msg))"

text \<open>
  Modelled from the spec: the field-element abstraction \<open>Field\<close> of the proof backend
  (addition, multiplication, equality assertion, access to the numeric value). A field
  element carries its numeric value, as \<open>toBigInt\<close> reads it while witnesses are
  computed, and the witness variables that occur in the expression it was built from by
  \<open>Field.add\<close> and \<open>Field.mul\<close>. Arithmetic is modulo the order of the native field.
\<close>

definition ORDER :: nat where
  "ORDER = 28948022309329048855892746252171976963363056481941560715954676764349967630337"

datatype Field = Field (toBigInt: nat) (vars: "nat list")

definition Field_from :: "nat \<Rightarrow> Field" where
  "Field_from c = Field (c mod ORDER) []"

definition add :: "Field \<Rightarrow> Field \<Rightarrow> Field" where
  "add a b = Field ((toBigInt a + toBigInt b) mod ORDER) (vars a @ vars b)"

definition mul :: "Field \<Rightarrow> Field \<Rightarrow> Field" where
  "mul a b = Field ((toBigInt a * toBigInt b) mod ORDER) (vars a @ vars b)"

text \<open>
  Modelled from the spec: the bitwise gadget library (XOR, AND, NOT, left rotation),
  parameterised by the bit width, on field elements that represent unsigned integers of
  that width. A gadget returns a new circuit value of the library's own, so no witness
  variable of this module occurs in its result. The rotation gadget works on 64-bit words.
\<close>

datatype direction = Left | Right

definition Gadgets_xor :: "Field \<Rightarrow> Field \<Rightarrow> nat \<Rightarrow> Field" where
  "Gadgets_xor a b len = Field (toBigInt a XOR toBigInt b) []"

definition Gadgets_and :: "Field \<Rightarrow> Field \<Rightarrow> nat \<Rightarrow> Field" where
  "Gadgets_and a b len = Field (toBigInt a AND toBigInt b) []"

definition Gadgets_not :: "Field \<Rightarrow> nat \<Rightarrow> bool \<Rightarrow> Field" where
  "Gadgets_not a len checked = Field ((2 ^ len - 1) XOR toBigInt a) []"

definition rotl64 :: "nat \<Rightarrow> nat \<Rightarrow> nat" where
  "rotl64 w bits = (w * 2 ^ bits) mod 2 ^ 64 + w div 2 ^ (64 - bits)"

definition Gadgets_rotate :: "Field \<Rightarrow> nat \<Rightarrow> direction \<Rightarrow> Field" where
  "Gadgets_rotate a bits dir =
     (case dir of
        Left \<Rightarrow> Field (rotl64 (toBigInt a) bits) []
      | Right \<Rightarrow> Field (rotl64 (toBigInt a) (64 - bits)) [])"

subsection \<open>The circuit under construction\<close>

text \<open>
  Building the circuit has two effects: it declares witness variables (\<open>exists\<close>,
  \<open>existsOne\<close>) and it records constraints (\<open>assertEquals\<close>, \<open>rangeCheck8\<close>). The
  circuit holds the number of witness variables declared so far (the variables are
  \<open>0, 1, ...\<close> in the order of declaration) and the recorded constraints, newest first.
  Whether a recorded constraint holds is decided by the backend at proving time.
\<close>

datatype constraint = AssertEquals Field Field | RangeCheck8 Field

record circuit =
  witnesses :: nat
  constraints :: "constraint list"

definition empty_circuit :: circuit where
  "empty_circuit = \<lparr>witnesses = 0, constraints = []\<rparr>"

type_synonym 'a builder = "circuit \<Rightarrow> (error + 'a) \<times> circuit"

definition return :: "'a \<Rightarrow> 'a builder" where
  "return x = (\<lambda>c. (Inr x, c))"

definition throw :: "error \<Rightarrow> 'a builder" where
  "throw e = (\<lambda>c. (Inl e, c))"

definition bind :: "'a builder \<Rightarrow> ('a \<Rightarrow> 'b builder) \<Rightarrow> 'b builder" where
  "bind m f = (\<lambda>c. case m c of (Inl e, c') \<Rightarrow> (Inl e, c') | (Inr x, c') \<Rightarrow> f x c')"

definition lift :: "error + 'a \<Rightarrow> 'a builder" where
  "lift r = (case r of Inl e \<Rightarrow> throw e | Inr x \<Rightarrow> return x)"

fun mapM :: "('a \<Rightarrow> 'b builder) \<Rightarrow> 'a list \<Rightarrow> 'b list builder" where
  "mapM f [] = return []"
| "mapM f (x # xs) = bind (f x) (\<lambda>y. bind (mapM f xs) (\<lambda>ys. return (y # ys)))"

text \<open>
  Modelled from the spec: the backend's mechanism to declare witnessed values computed by
  an out-of-band function. \<open>existsOne\<close> declares one witness variable holding the computed
  value; \<open>exists n\<close> declares \<open>n\<close> of them, and \<open>TupleN.fromArray n\<close> checks the length.
\<close>

definition existsOne :: "nat \<Rightarrow> Field builder" where
  "existsOne v = (\<lambda>c. (Inr (Field (v mod ORDER) [witnesses c]),
                        c\<lparr>witnesses := witnesses c + 1\<rparr>))"

definition TupleN_fromArray :: "nat \<Rightarrow> 'a list \<Rightarrow> error + 'a list" where
  "TupleN_fromArray n xs =
     (if length xs = n then Inr xs else Inl (AssertionError ''Expected array of length n''))"

definition exists :: "nat \<Rightarrow> (error + nat list) \<Rightarrow> Field list builder" where
  "exists n compute = bind (lift compute) (\<lambda>vs. mapM existsOne vs)"

definition assertEquals :: "Field \<Rightarrow> Field \<Rightarrow> unit builder" where
  "assertEquals a b = (\<lambda>c. (Inr (), c\<lparr>constraints := AssertEquals a b # constraints c\<rparr>))"

definition rangeCheck8 :: "Field \<Rightarrow> unit builder" where
  "rangeCheck8 x = (\<lambda>c. (Inr (), c\<lparr>constraints := RangeCheck8 x # constraints c\<rparr>))"

fun forM :: "'a list \<Rightarrow> ('a \<Rightarrow> unit builder) \<Rightarrow> unit builder" where
  "forM [] f = return ()"
| "forM (x # xs) f = bind (f x) (\<lambda>_. forM xs f)"

definition ebind :: "error + 'a \<Rightarrow> ('a \<Rightarrow> error + 'b) \<Rightarrow> error + 'b" where
  "ebind r f = (case r of Inl e \<Rightarrow> Inl e | Inr x \<Rightarrow> f x)"

subsection \<open>JavaScript arrays and numbers\<close>

text \<open>
  \<open>xs.slice(a, b)\<close> for \<open>0 \<le> a \<le> b\<close> (the bounds are clamped to the array).
  \<open>Array(n)\<close> throws a RangeError unless \<open>n\<close> is an integer in \<open>[0, 2^32 - 1]\<close>; a
  JavaScript number is an integer here, or NaN (\<open>None\<close>). \<open>a % b\<close> has the sign of
  \<open>a\<close> and is NaN for \<open>b = 0\<close>.
\<close>

definition slice :: "'a list \<Rightarrow> nat \<Rightarrow> nat \<Rightarrow> 'a list" where
  "slice xs a b = take (b - a) (drop a xs)"

definition Array_fill :: "int option \<Rightarrow> 'a \<Rightarrow> error + 'a list" where
  "Array_fill n v =
     (case n of
        None \<Rightarrow> Inl RangeError
      | Some k \<Rightarrow> if k < 0 \<or> 2 ^ 32 \<le> k then Inl RangeError else Inr (replicate (nat k) v))"

definition js_rem :: "int \<Rightarrow> int \<Rightarrow> int option" where
  "js_rem a b = (if b = 0 then None else Some (sgn a * (\<bar>a\<bar> mod \<bar>b\<bar>)))"

section \<open>Keccak constants\<close>

definition KECCAK_DIM :: nat where "KECCAK_DIM = 5"
definition KECCAK_ELL :: nat where "KECCAK_ELL = 6"
definition KECCAK_WORD :: nat where "KECCAK_WORD = 2 ^ KECCAK_ELL"
definition BYTES_PER_WORD :: nat where "BYTES_PER_WORD = KECCAK_WORD div 8"
definition KECCAK_STATE_LENGTH :: nat where "KECCAK_STATE_LENGTH = KECCAK_DIM ^ 2 * KECCAK_WORD"
definition KECCAK_ROUNDS :: nat where "KECCAK_ROUNDS = 12 + 2 * KECCAK_ELL"

definition ROT_TABLE :: "nat list list" where
  "ROT_TABLE =
    [[0, 36, 3, 41, 18],
     [1, 44, 10, 45, 2],
     [62, 6, 43, 15, 61],
     [28, 55, 25, 21, 56],
     [27, 20, 39, 8, 14]]"

definition ROUND_CONSTANTS :: "nat list" where
  "ROUND_CONSTANTS =
    [0x0000000000000001, 0x0000000000008082, 0x800000000000808a, 0x8000000080008000,
     0x000000000000808b, 0x0000000080000001, 0x8000000080008081, 0x8000000000008009,
     0x000000000000008a, 0x0000000000000088, 0x0000000080008009, 0x000000008000000a,
     0x000000008000808b, 0x800000000000008b, 0x8000000000008089, 0x8000000000008003,
     0x8000000000008002, 0x8000000000000080, 0x000000000000800a, 0x800000008000000a,
     0x8000000080008081, 0x8000000000008080, 0x0000000080000001, 0x8000000080008008]"

section \<open>State codec\<close>

text \<open>
  A state is a 5 x 5 matrix of lanes, \<open>state[x][y]\<close>: a list of five rows of five
  field elements. The functions below index it as the source does; the theorems about
  them are for states of that shape.
\<close>

type_synonym state = "Field list list"

definition lane :: "state \<Rightarrow> nat \<Rightarrow> nat \<Rightarrow> Field" where
  "lane s x y = s ! x ! y"

definition set_lane :: "state \<Rightarrow> nat \<Rightarrow> nat \<Rightarrow> Field \<Rightarrow> state" where
  "set_lane s x y v = s[x := (s ! x)[y := v]]"

definition composition :: "Field list \<Rightarrow> Field" where
  "composition wordBytes =
     foldl (\<lambda>acc (i, x). add acc (mul x (Field_from (2 ^ (8 * i)))))
       (Field_from 0) (enumerate 0 wordBytes)"

definition checkBytesToWord :: "Field \<Rightarrow> Field list \<Rightarrow> unit builder" where
  "checkBytesToWord word wordBytes = assertEquals word (composition wordBytes)"

definition getKeccakStateZeros :: state where
  "getKeccakStateZeros = replicate KECCAK_DIM (replicate KECCAK_DIM (Field_from 0))"

definition getKeccakStateOfBytes :: "Field list \<Rightarrow> error + state" where
  "getKeccakStateOfBytes bytestring =
     ebind (assert (length bytestring = 200) ''improper bytestring length'') (\<lambda>_.
       Inr (fold (\<lambda>y. fold (\<lambda>x state.
              let idx = BYTES_PER_WORD * (KECCAK_DIM * y + x);
                  wordBytes = slice bytestring idx (idx + BYTES_PER_WORD)
              in fold (\<lambda>z state.
                   let shift = Field_from (2 ^ (8 * z))
                   in set_lane state x y (add (lane state x y) (mul shift (wordBytes ! z))))
                 [0..<BYTES_PER_WORD] state)
            [0..<KECCAK_DIM]) [0..<KECCAK_DIM] getKeccakStateZeros))"

definition byteOfState :: "state \<Rightarrow> nat \<Rightarrow> nat" where
  "byteOfState state idx =
     (let z = idx mod BYTES_PER_WORD;
          x = (idx div BYTES_PER_WORD) mod KECCAK_DIM;
          y = idx div BYTES_PER_WORD div KECCAK_DIM;
          word = toBigInt (lane state x y)
      in drop_bit (8 * z) word AND 0xff)"

definition keccakStateToBytes :: "state \<Rightarrow> Field list builder" where
  "keccakStateToBytes state =
     bind (mapM (\<lambda>idx. existsOne (byteOfState state idx)) [0..<KECCAK_STATE_LENGTH div 8])
       (\<lambda>bytestring.
     bind (forM [0..<KECCAK_DIM] (\<lambda>y. forM [0..<KECCAK_DIM] (\<lambda>x.
             let idx = BYTES_PER_WORD * (KECCAK_DIM * y + x);
                 word_bytes = slice bytestring idx (idx + BYTES_PER_WORD)
             in checkBytesToWord (lane state x y) word_bytes)))
       (\<lambda>_. return bytestring))"

definition keccakStateXor :: "state \<Rightarrow> state \<Rightarrow> error + state" where
  "keccakStateXor a b =
     ebind (assert (length a = KECCAK_DIM \<and> length (a ! 0) = KECCAK_DIM)
              ''Invalid input1 dimensions'') (\<lambda>_.
     ebind (assert (length b = KECCAK_DIM \<and> length (b ! 0) = KECCAK_DIM)
              ''Invalid input2 dimensions'') (\<lambda>_.
       Inr (map (\<lambda>(rowIndex, row).
              map (\<lambda>(columnIndex, element).
                     Gadgets_xor element (lane b rowIndex columnIndex) 64)
                  (enumerate 0 row))
            (enumerate 0 a))))"

section \<open>Padding\<close>

definition bytesToPad :: "int \<Rightarrow> nat \<Rightarrow> int option" where
  "bytesToPad rate len =
     (case js_rem (int len) (rate div 8) of
        None \<Rightarrow> None
      | Some r \<Rightarrow> Some (rate div 8 - r))"

text \<open>
  Both padding functions allocate \<open>Array(extraBytes)\<close> filled with zero, write the first
  marker byte at index 0 and add \<open>0x80\<close> to the byte at index \<open>extraBytes - 1\<close>; the first
  byte is \<open>0x06\<close> for the NIST rule and \<open>0x01\<close> for the 10*1 rule. On an empty array the
  write at index 0 appends, and the read at index \<open>-1\<close> is \<open>undefined\<close>.
\<close>

definition padWith :: "nat \<Rightarrow> Field list \<Rightarrow> int \<Rightarrow> error + Field list" where
  "padWith first message rate =
     (let extraBytes = bytesToPad rate (length message);
          last = Field_from (2 ^ 7)
      in ebind (Array_fill extraBytes (Field_from 0)) (\<lambda>pad0.
           let pad1 = (if pad0 = [] then [Field_from first] else pad0[0 := Field_from first])
           in if pad0 = [] then Inl TypeError
              else Inr (message @
                        pad1[length pad0 - 1 := add (pad1 ! (length pad0 - 1)) last])))"

definition padNist :: "Field list \<Rightarrow> int \<Rightarrow> error + Field list" where
  "padNist message rate = padWith 6 message rate"

definition pad101 :: "Field list \<Rightarrow> int \<Rightarrow> error + Field list" where
  "pad101 message rate = padWith 1 message rate"

section \<open>Round transformation\<close>

text \<open>
  \<open>row.reduce(f)\<close> without an initial value starts from the first element (and throws on
  an empty row; rows have five lanes).
\<close>

definition reduce1 :: "('a \<Rightarrow> 'a \<Rightarrow> 'a) \<Rightarrow> 'a list \<Rightarrow> 'a" where
  "reduce1 f row = foldl f (hd row) (tl row)"

definition theta :: "state \<Rightarrow> state" where
  "theta state =
     (let stateA = state;
          stateC = map (\<lambda>row. reduce1 (\<lambda>acc next. Gadgets_xor acc next KECCAK_WORD) row) stateA;
          stateD = map (\<lambda>x. Gadgets_xor
                               (stateC ! ((x + KECCAK_DIM - 1) mod KECCAK_DIM))
                               (Gadgets_rotate (stateC ! ((x + 1) mod KECCAK_DIM)) 1 Left)
                               KECCAK_WORD)
                       [0..<KECCAK_DIM];
          stateE = map (\<lambda>(index, row).
                          map (\<lambda>elem. Gadgets_xor elem (stateD ! index) KECCAK_WORD) row)
                       (enumerate 0 stateA)
      in stateE)"

definition piRho :: "state \<Rightarrow> state" where
  "piRho state =
     (let stateE = state
      in fold (\<lambda>x. fold (\<lambda>y stateB.
                 set_lane stateB y ((2 * x + 3 * y) mod KECCAK_DIM)
                   (Gadgets_rotate (lane stateE x y) (ROT_TABLE ! x ! y) Left))
               [0..<KECCAK_DIM]) [0..<KECCAK_DIM] getKeccakStateZeros)"

definition chi :: "state \<Rightarrow> state" where
  "chi state =
     (let stateB = state
      in fold (\<lambda>x. fold (\<lambda>y stateF.
                 set_lane stateF x y
                   (Gadgets_xor (lane stateB x y)
                      (Gadgets_and
                         (Gadgets_not (lane stateB ((x + 1) mod KECCAK_DIM) y) KECCAK_WORD False)
                         (lane stateB ((x + 2) mod KECCAK_DIM) y)
                         KECCAK_WORD)
                      KECCAK_WORD))
               [0..<KECCAK_DIM]) [0..<KECCAK_DIM] getKeccakStateZeros)"

definition iota :: "state \<Rightarrow> Field \<Rightarrow> state" where
  "iota state rc =
     (let stateG = state
      in set_lane stateG 0 0 (Gadgets_xor (lane stateG 0 0) rc KECCAK_WORD))"

definition round_fn :: "state \<Rightarrow> Field \<Rightarrow> state" where
  "round_fn state rc =
     (let stateA = state;
          stateE = theta stateA;
          stateB = piRho stateE;
          stateF = chi stateB;
          stateD = iota stateF rc
      in stateD)"

text \<open>\<open>rc.reduce(f, state)\<close> with an initial value is a left fold.\<close>

definition permutation :: "state \<Rightarrow> Field list \<Rightarrow> state" where
  "permutation state rc =
     foldl (\<lambda>currentState rcValue. round_fn currentState rcValue) state rc"

section \<open>Sponge\<close>

text \<open>
  \<open>capacity\<close>, \<open>rate\<close> and \<open>length\<close> are bit counts. The facade reaches the sponge with
  \<open>0 < capacity < 1600\<close> and \<open>rate = 1600 - capacity\<close>, so they are naturals here.
  \<open>Array(capacity / 8)\<close> throws unless \<open>capacity / 8\<close> is an integer. The loops step by
  \<open>rate / 8\<close> bytes; they are modelled for a rate that is a positive multiple of 8, which
  is the case in every call that gets past the allocation of \<open>zeros\<close> from the facade.
\<close>

fun foldE :: "('s \<Rightarrow> 'a \<Rightarrow> error + 's) \<Rightarrow> 's \<Rightarrow> 'a list \<Rightarrow> error + 's" where
  "foldE f s [] = Inr s"
| "foldE f s (x # xs) = ebind (f s x) (\<lambda>s'. foldE f s' xs)"

fun foldM :: "('s \<Rightarrow> 'a \<Rightarrow> 's builder) \<Rightarrow> 's \<Rightarrow> 'a list \<Rightarrow> 's builder" where
  "foldM f s [] = return s"
| "foldM f s (x # xs) = bind (f s x) (\<lambda>s'. foldM f s' xs)"

definition blockStarts :: "nat \<Rightarrow> nat \<Rightarrow> nat list" where
  "blockStarts len step = map (\<lambda>k. k * step) [0..<(len + step - 1) div step]"

definition absorb :: "Field list \<Rightarrow> nat \<Rightarrow> nat \<Rightarrow> Field list \<Rightarrow> error + state" where
  "absorb paddedMessage capacity rate rc =
     ebind (if capacity mod 8 = 0
            then Array_fill (Some (int (capacity div 8))) (Field_from 0)
            else Inl RangeError) (\<lambda>zeros.
       foldE (\<lambda>state i.
                let block = slice paddedMessage i (i + rate div 8);
                    paddedBlock = block @ zeros
                in ebind (assert (length paddedBlock * 8 = KECCAK_STATE_LENGTH)
                            ''improper Keccak block length'') (\<lambda>_.
                   ebind (getKeccakStateOfBytes paddedBlock) (\<lambda>blockState.
                   ebind (keccakStateXor state blockState) (\<lambda>stateXor.
                     let statePerm = permutation stateXor rc
                     in Inr statePerm))))
             getKeccakStateZeros
             (blockStarts (length paddedMessage) (rate div 8)))"

definition copy :: "Field list \<Rightarrow> Field list \<Rightarrow> nat \<Rightarrow> nat \<Rightarrow> Field list" where
  "copy bytestring outputArray start len =
     fold (\<lambda>i out. out[start + i := bytestring ! i]) [0..<len] outputArray"

definition squeeze :: "state \<Rightarrow> nat \<Rightarrow> nat \<Rightarrow> Field list \<Rightarrow> Field list builder" where
  "squeeze state len rate rc =
     (let newState = state;
          bytesPerSqueeze = rate div 8;
          squeezes = len div rate + 1;
          outputLength = squeezes * bytesPerSqueeze
      in bind (lift (Array_fill (Some (int outputLength)) (Field_from 0))) (\<lambda>outputArray.
         bind (keccakStateToBytes state) (\<lambda>bytestring.
           let outputBytes = slice bytestring 0 bytesPerSqueeze;
               outputArray = copy outputBytes outputArray 0 bytesPerSqueeze
           in bind (foldM (\<lambda>(newState, outputArray) i.
                       let newState = permutation newState rc
                       in bind (keccakStateToBytes state) (\<lambda>bytestringI.
                            let outputBytesI = slice bytestringI 0 bytesPerSqueeze
                            in return (newState,
                                       copy outputBytesI outputArray
                                         (bytesPerSqueeze * i) bytesPerSqueeze)))
                     (newState, outputArray) [1..<squeezes])
                (\<lambda>(newState, outputArray).
                   let hashed = slice outputArray 0 (len div 8)
                   in return hashed))))"

definition sponge :: "Field list \<Rightarrow> nat \<Rightarrow> nat \<Rightarrow> nat \<Rightarrow> Field list builder" where
  "sponge paddedMessage len capacity rate =
     (if rate = 0 \<or> (length paddedMessage * 8) mod rate \<noteq> 0
      then throw (Error ''Invalid padded message length'')
      else bind (exists 24 (TupleN_fromArray 24 ROUND_CONSTANTS)) (\<lambda>rc.
           bind (lift (absorb paddedMessage capacity rate rc)) (\<lambda>state.
           bind (squeeze state len rate rc) (\<lambda>hashed.
             return hashed))))"

section \<open>Hash facade\<close>

datatype endian = Big | Little

definition checkBytes :: "Field list \<Rightarrow> unit builder" where
  "checkBytes inputs = forM inputs rangeCheck8"

definition hash ::
  "endian \<Rightarrow> endian \<Rightarrow> bool \<Rightarrow> Field list \<Rightarrow> int \<Rightarrow> int \<Rightarrow> bool \<Rightarrow> Field list builder" where
  "hash inpEndian outEndian byteChecks message len capacity nistVersion =
     bind (lift (assert (capacity > 0) ''capacity must be positive'')) (\<lambda>_.
     bind (lift (assert (capacity < int KECCAK_STATE_LENGTH)
                   ''capacity must be less than 1600'')) (\<lambda>_.
     bind (lift (assert (len > 0) ''length must be positive'')) (\<lambda>_.
     bind (lift (assert (js_rem len 8 = Some 0) ''length must be a multiple of 8'')) (\<lambda>_.
       let messageFormatted = (if inpEndian = Big then message else rev message)
       in bind (if byteChecks then checkBytes messageFormatted else return ()) (\<lambda>_.
            let rate = int KECCAK_STATE_LENGTH - capacity
            in bind (lift (if nistVersion then padNist messageFormatted rate
                           else pad101 messageFormatted rate)) (\<lambda>padded.
               bind (sponge padded (nat len) (nat capacity) (nat rate)) (\<lambda>hash.
               bind (checkBytes hash) (\<lambda>_.
                 let hashFormatted = (if outEndian = Big then hash else rev hash)
                 in return hashFormatted))))))))"

definition nistSha3 ::
  "int \<Rightarrow> Field list \<Rightarrow> endian \<Rightarrow> endian \<Rightarrow> bool \<Rightarrow> Field list builder" where
  "nistSha3 len message inpEndian outEndian byteChecks =
     (if len = 224 then hash inpEndian outEndian byteChecks message 224 448 True
      else if len = 256 then hash inpEndian outEndian byteChecks message 256 512 True
      else if len = 384 then hash inpEndian outEndian byteChecks message 384 768 True
      else if len = 512 then hash inpEndian outEndian byteChecks message 512 1024 True
      else throw (Error ''Invalid length''))"

definition ethereum :: "endian \<Rightarrow> endian \<Rightarrow> bool \<Rightarrow> Field list \<Rightarrow> Field list builder" where
  "ethereum inpEndian outEndian byteChecks message =
     hash inpEndian outEndian byteChecks message 256 512 False"

definition preNist ::
  "int \<Rightarrow> Field list \<Rightarrow> endian \<Rightarrow> endian \<Rightarrow> bool \<Rightarrow> Field list builder" where
  "preNist len message inpEndian outEndian byteChecks =
     (if len = 224 then hash inpEndian outEndian byteChecks message 224 448 False
      else if len = 256 then ethereum inpEndian outEndian byteChecks message
      else if len = 384 then hash inpEndian outEndian byteChecks message 384 768 False
      else if len = 512 then hash inpEndian outEndian byteChecks message 512 1024 False
      else throw (Error ''Invalid length''))"

section \<open>Notions used to state the properties\<close>

text \<open>
  The state after the first \<open>i\<close> rounds, each round being theta, then the fused rho/pi
  step, then chi, then iota with the \<open>i\<close>-th round constant.
\<close>

fun after_rounds :: "state \<Rightarrow> Field list \<Rightarrow> nat \<Rightarrow> state" where
  "after_rounds s rc 0 = s"
| "after_rounds s rc (Suc i) = iota (chi (piRho (theta (after_rounds s rc i)))) (rc ! i)"

text \<open>
  What \<open>keccakStateToBytes\<close> declares and records on a state, when the circuit has \<open>w\<close>
  witness variables: the 200 witnessed bytes (byte \<open>i\<close> is variable \<open>w + i\<close>), and the 25
  recomposition constraints, newest first.
\<close>

definition witnessedBytes :: "state \<Rightarrow> nat \<Rightarrow> Field list" where
  "witnessedBytes s w = map (\<lambda>i. Field (byteOfState s i mod ORDER) [w + i]) [0..<200]"

definition wordChecks :: "state \<Rightarrow> Field list \<Rightarrow> constraint list" where
  "wordChecks s bs =
     concat (rev (map (\<lambda>y. rev (map (\<lambda>x.
        AssertEquals (lane s x y) (composition (slice bs (8 * (5 * y + x)) (8 * (5 * y + x) + 8))))
        [0..<5])) [0..<5]))"

text \<open>
  The lane that \<open>getKeccakStateOfBytes\<close> builds from eight bytes, and the number that
  eight byte values denote, least significant first.
\<close>

definition wordOfBytes :: "Field list \<Rightarrow> Field" where
  "wordOfBytes wordBytes =
     foldl (\<lambda>acc z. add acc (mul (Field_from (2 ^ (8 * z))) (wordBytes ! z)))
       (Field_from 0) [0..<8]"

definition horner :: "nat list \<Rightarrow> nat" where
  "horner vs = foldr (\<lambda>v acc. v + 256 * acc) vs 0"

text \<open>
  What one squeeze should be, following the description of the sponge: the first chunk is
  the first \<open>rate / 8\<close> bytes of the current state; while more output is needed the
  permutation is applied once more and the next chunk is the first \<open>rate / 8\<close> bytes of
  the state just permuted; the chunks are concatenated and cut to \<open>length / 8\<close> bytes.
  It differs from \<open>squeeze\<close> in one place: the state that is decomposed inside the loop.
\<close>

definition squeeze_spec :: "state \<Rightarrow> nat \<Rightarrow> nat \<Rightarrow> Field list \<Rightarrow> Field list builder" where
  "squeeze_spec state len rate rc =
     (let bytesPerSqueeze = rate div 8;
          squeezes = len div rate + 1;
          outputLength = squeezes * bytesPerSqueeze
      in bind (lift (Array_fill (Some (int outputLength)) (Field_from 0))) (\<lambda>outputArray.
         bind (keccakStateToBytes state) (\<lambda>bytestring.
           let outputArray = copy (slice bytestring 0 bytesPerSqueeze) outputArray 0 bytesPerSqueeze
           in bind (foldM (\<lambda>(currentState, outputArray) i.
                       let permuted = permutation currentState rc
                       in bind (keccakStateToBytes permuted) (\<lambda>bytestringI.
                            return (permuted,
                                    copy (slice bytestringI 0 bytesPerSqueeze) outputArray
                                      (bytesPerSqueeze * i) bytesPerSqueeze)))
                     (state, outputArray) [1..<squeezes])
                (\<lambda>(finalState, outputArray). return (slice outputArray 0 (len div 8))))))"

text \<open>
  The numeric values of the bytes that a computation returns when it is run on the empty
  circuit, and their hexadecimal encoding, two lower-case digits per byte.
\<close>

definition hex_digit :: "nat \<Rightarrow> char" where
  "hex_digit n = ''0123456789abcdef'' ! n"

definition hex_of_bytes :: "nat list \<Rightarrow> string" where
  "hex_of_bytes bs = concat (map (\<lambda>b. [hex_digit (b div 16), hex_digit (b mod 16)]) bs)"

definition output_values :: "Field list builder \<Rightarrow> error + nat list" where
  "output_values m =
     (case fst (m empty_circuit) of Inl e \<Rightarrow> Inl e | Inr out \<Rightarrow> Inr (map toBigInt out))"

definition digest_hex :: "Field list builder \<Rightarrow> error + string" where
  "digest_hex m =
     (case output_values m of Inl e \<Rightarrow> Inl e | Inr bs \<Rightarrow> Inr (hex_of_bytes bs))"




text \<open>
  Three states written out, lane by lane (\<open>state[x][y]\<close>): the block of the padded
  empty message at rate 1088, the state after absorbing it (the permutation of that block),
  and the permutation of the all-zero state. That they are these is proved below by running
  the 24 rounds.
\<close>

definition empty_message_block :: state where
  "empty_message_block =
     [[Field 1 [],
       Field 0 [],
       Field 0 [],
       Field 0 [],
       Field 0 []],
      [Field 0 [],
       Field 0 [],
       Field 0 [],
       Field 9223372036854775808 [],
       Field 0 []],
      [Field 0 [],
       Field 0 [],
       Field 0 [],
       Field 0 [],
       Field 0 []],
      [Field 0 [],
       Field 0 [],
       Field 0 [],
       Field 0 [],
       Field 0 []],
      [Field 0 [],
       Field 0 [],
       Field 0 [],
       Field 0 [],
       Field 0 []]]"

definition empty_message_state :: state where
  "empty_message_state =
     [[Field 4333579421379646149 [],
       Field 14671339323370021561 [],
       Field 4391692840257016808 [],
       Field 16970298442240338249 [],
       Field 16062291397582171322 []],
      [Field 13836122230913597074 [],
       Field 2243375101132795228 [],
       Field 4309499098775122448 [],
       Field 1971761234120675839 [],
       Field 1601982631079003425 []],
      [Field 4262519377828905189 [],
       Field 9371364203318886753 [],
       Field 13438072403645551266 [],
       Field 450719451514497906 [],
       Field 7734681229251997073 []],
      [Field 8116759062988257915 [],
       Field 9347994793612953298 [],
       Field 18018124564071650747 [],
       Field 18340686150147091359 [],
       Field 13256946727218518206 []],
      [Field 8406387447366859581 [],
       Field 12814238161780307547 [],
       Field 4323130096954625545 [],
       Field 11254645818134300982 [],
       Field 11816912122432958423 []]]"

definition zero_state_permuted :: state where
  "zero_state_permuted =
     [[Field 17376452488221285863 [],
       Field 18417369716475457492 [],
       Field 16959053435453822517 [],
       Field 424854978622500449 [],
       Field 10668034807192757780 []],
      [Field 9571781953733019530 [],
       Field 10448040663659726788 [],
       Field 12224711289652453635 [],
       Field 7259519967065370866 [],
       Field 1747952066141424100 []],
      [Field 15391093639620504046 [],
       Field 10113917136857017974 [],
       Field 9342009439668884831 [],
       Field 7004910057750291985 [],
       Field 1654286879329379778 []],
      [Field 13624874521033984333 [],
       Field 12479658147685402012 [],
       Field 4879704952849025062 [],
       Field 13293599522548616907 [],
       Field 8500057116360352059 []],
      [Field 10027350355371872343 [],
       Field 3500241080921619556 [],
       Field 140226327413610143 [],
       Field 10105770293752443592 [],
       Field 16929593379567477321 []]]"

section \<open>Basic facts about the builder\<close>

lemma KECCAK_STATE_LENGTH_1600: "KECCAK_STATE_LENGTH = 1600"
  by (simp add: KECCAK_STATE_LENGTH_def KECCAK_DIM_def KECCAK_WORD_def KECCAK_ELL_def)

lemma bind_return [simp]: "bind (return x) f = f x"
  by (simp add: bind_def return_def)

lemma bind_throw [simp]: "bind (throw e) f = throw e"
  by (simp add: bind_def throw_def)

lemma bind_return_right [simp]: "bind m (\<lambda>x. return x) = m"
  by (rule ext) (simp add: bind_def return_def split: prod.splits sum.splits)

lemma throw_apply [simp]: "throw e c = (Inl e, c)"
  by (simp add: throw_def)

lemma return_apply [simp]: "return x c = (Inr x, c)"
  by (simp add: return_def)

lemma lift_Inr [simp]: "lift (Inr x) = return x"
  by (simp add: lift_def)

lemma lift_Inl [simp]: "lift (Inl e) = throw e"
  by (simp add: lift_def)

lemma ebind_Inr [simp]: "ebind (Inr x) f = f x"
  by (simp add: ebind_def)

lemma ebind_Inl [simp]: "ebind (Inl e) f = Inl e"
  by (simp add: ebind_def)

lemma assert_True [simp]: "c \<Longrightarrow> assert c msg = Inr ()"
  by (simp add: assert_def)

lemma assert_False [simp]: "\<not> c \<Longrightarrow> assert c msg = Inl (AssertionError msg)"
  by (simp add: assert_def)

section \<open>The facade\<close>

text \<open>
  Claim C8. For every message and every choice of endianness and byte-check flags,
  \<open>preNist\<close> at length 256 is \<open>ethereum\<close> with the same message and flags: the same
  result and the same circuit.
\<close>

theorem preNist_256_is_ethereum:
  "preNist 256 message inpEndian outEndian byteChecks =
   ethereum inpEndian outEndian byteChecks message"
  by (simp add: preNist_def)

text \<open>
  Claim C7. A capacity that is zero, negative or at least 1600, and an output length that
  is zero, negative or not a multiple of 8, each make \<open>hash\<close> fail on one of its four
  assertions, and the circuit is returned as it was given: no witness is declared and no
  constraint is recorded before the failure.
\<close>

theorem hash_rejects_invalid_parameters:
  assumes "capacity \<le> 0 \<or> 1600 \<le> capacity \<or> len \<le> 0 \<or> len mod 8 \<noteq> 0"
  shows "\<exists>msg \<in> {''capacity must be positive'', ''capacity must be less than 1600'',
                 ''length must be positive'', ''length must be a multiple of 8''}.
           hash inpEndian outEndian byteChecks message len capacity nistVersion c =
             (Inl (AssertionError msg), c)"
proof -
  consider (a) "capacity \<le> 0"
    | (b) "0 < capacity" "1600 \<le> capacity"
    | (c) "0 < capacity" "capacity < 1600" "len \<le> 0"
    | (d) "0 < capacity" "capacity < 1600" "0 < len" "len mod 8 \<noteq> 0"
    using assms by linarith
  then show ?thesis
  proof cases
    case a
    then show ?thesis by (simp add: hash_def)
  next
    case b
    then show ?thesis by (simp add: hash_def KECCAK_STATE_LENGTH_1600)
  next
    case c
    then show ?thesis by (simp add: hash_def KECCAK_STATE_LENGTH_1600)
  next
    case d
    then have "js_rem len 8 \<noteq> Some 0"
      by (simp add: js_rem_def)
    with d show ?thesis by (simp add: hash_def KECCAK_STATE_LENGTH_1600)
  qed
qed

theorem hash_rejects_invalid_parameters_witness:
  "hash Big Big False [] 256 0 False empty_circuit =
     (Inl (AssertionError ''capacity must be positive''), empty_circuit)
   \<and> hash Big Big True [Field_from 1] 12 512 True empty_circuit =
     (Inl (AssertionError ''length must be a multiple of 8''), empty_circuit)"
  using hash_rejects_invalid_parameters [of 0 256 Big Big False "[]" False empty_circuit]
    hash_rejects_invalid_parameters [of 512 12 Big Big True "[Field_from 1]" True empty_circuit]
  by (simp add: hash_def KECCAK_STATE_LENGTH_1600 js_rem_def)

section \<open>Padding: lengths and failures\<close>

lemma js_rem_nonneg: "0 \<le> a \<Longrightarrow> b \<noteq> 0 \<Longrightarrow> js_rem a b = Some (a mod \<bar>b\<bar>)"
  by (cases "a = 0") (simp_all add: js_rem_def)

lemma bytesToPad_ge8:
  assumes "8 \<le> rate"
  shows "bytesToPad rate len = Some (rate div 8 - int len mod (rate div 8))"
proof -
  have "0 < rate div 8" using assms by simp
  then show ?thesis by (simp add: bytesToPad_def js_rem_nonneg)
qed

lemma bytesToPad_lt8:
  assumes "rate < 8"
  shows "bytesToPad rate len = None \<or> (\<exists>k<0. bytesToPad rate len = Some k)"
proof (cases "0 \<le> rate")
  case True
  then have "rate div 8 = 0" using assms by simp
  then show ?thesis by (simp add: bytesToPad_def js_rem_def)
next
  case False
  then have q: "rate div 8 < 0" by simp
  have e: "bytesToPad rate len = Some (rate div 8 - int len mod (- (rate div 8)))"
    using q by (simp add: bytesToPad_def js_rem_nonneg)
  have "0 \<le> int len mod (- (rate div 8))" using q by simp
  then have "rate div 8 - int len mod (- (rate div 8)) < 0" using q by linarith
  then show ?thesis using e by blast
qed

lemma padWith_lt8:
  assumes "rate < 8"
  shows "padWith first message rate = Inl RangeError"
  using bytesToPad_lt8 [OF assms, of "length message"]
  by (auto simp: padWith_def Array_fill_def)

lemma extraBytes_bounds:
  assumes "8 \<le> rate"
  shows "1 \<le> rate div 8 - int len mod (rate div 8)"
    and "rate div 8 - int len mod (rate div 8) \<le> rate div 8"
proof -
  have q: "0 < rate div 8" using assms by simp
  have "int len mod (rate div 8) < rate div 8" using q by simp
  then show "1 \<le> rate div 8 - int len mod (rate div 8)" by simp
  have "0 \<le> int len mod (rate div 8)" using q by simp
  then show "rate div 8 - int len mod (rate div 8) \<le> rate div 8" by simp
qed

lemma padWith_ge8:
  assumes "8 \<le> rate" and "rate div 8 < 2 ^ 32"
  shows "\<exists>out. padWith first message rate = Inr out \<and>
           int (length out) =
             int (length message) + (rate div 8 - int (length message) mod (rate div 8))"
proof -
  let ?k = "rate div 8 - int (length message) mod (rate div 8)"
  have k: "1 \<le> ?k" "?k \<le> rate div 8"
    using extraBytes_bounds [OF assms(1)] by simp_all
  then have fill: "Array_fill (Some ?k) (Field_from 0) = Inr (replicate (nat ?k) (Field_from 0))"
    using assms(2) by (simp add: Array_fill_def)
  have ne: "replicate (nat ?k) (Field_from 0) \<noteq> []"
    using k by simp
  show ?thesis
    using k ne by (simp add: padWith_def bytesToPad_ge8 [OF assms(1)] fill Let_def ebind_def)
qed

lemma padWith_length:
  assumes "padWith first message rate = Inr out"
  shows "\<exists>k. bytesToPad rate (length message) = Some k \<and> 1 \<le> k \<and>
           int (length out) = int (length message) + k"
  using assms
  by (auto simp: padWith_def Array_fill_def ebind_def Let_def
      split: option.splits if_splits)

lemma padded_bits_multiple:
  assumes "0 < rate" and "rate mod 8 = 0"
  shows "((int len + (rate div 8 - int len mod (rate div 8))) * 8) mod rate = 0"
proof -
  let ?q = "rate div 8"
  have r: "rate = 8 * ?q" using assms(2) by presburger
  have "int len + (?q - int len mod ?q) = ?q * (int len div ?q + 1)"
    by (simp add: algebra_simps minus_mod_eq_mult_div [symmetric])
  then have "(int len + (?q - int len mod ?q)) * 8 = rate * (int len div ?q + 1)"
    using r by (metis mult.assoc mult.commute)
  then show ?thesis by simp
qed

text \<open>
  Claim C5, amended. For every message and every rate that is a positive multiple of 8,
  \<open>bytesToPad\<close> returns at least 1 and the padded length in bits is a multiple of the rate;
  every padded message that \<open>padNist\<close> or \<open>pad101\<close> produces has such a length, and they
  do produce one whenever \<open>rate / 8\<close> is a length that \<open>Array\<close> accepts.
\<close>

theorem padding_length_invariant:
  assumes "0 < rate" and "rate mod 8 = 0"
  shows "(\<exists>k. bytesToPad rate (length message) = Some k \<and> 1 \<le> k \<and>
              ((int (length message) + k) * 8) mod rate = 0)
       \<and> (\<forall>out. padNist message rate = Inr out \<longrightarrow> (int (length out) * 8) mod rate = 0)
       \<and> (\<forall>out. pad101 message rate = Inr out \<longrightarrow> (int (length out) * 8) mod rate = 0)
       \<and> (rate div 8 < 2 ^ 32 \<longrightarrow>
            (\<exists>out. padNist message rate = Inr out) \<and> (\<exists>out. pad101 message rate = Inr out))"
proof -
  have ge: "8 \<le> rate" using assms by presburger
  note b = bytesToPad_ge8 [OF ge, of "length message"]
  note m = padded_bits_multiple [OF assms, of "length message"]
  have 1: "\<exists>k. bytesToPad rate (length message) = Some k \<and> 1 \<le> k \<and>
              ((int (length message) + k) * 8) mod rate = 0"
    using b m extraBytes_bounds(1) [OF ge, of "length message"] by simp
  have 2: "(int (length out) * 8) mod rate = 0" if "padWith first message rate = Inr out"
    for first out
    using padWith_length [OF that] b m by auto
  have 3: "\<exists>out. padWith first message rate = Inr out" if "rate div 8 < 2 ^ 32" for first
    using padWith_ge8 [OF ge that] by blast
  show ?thesis
    using 1 2 3 by (simp add: padNist_def pad101_def)
qed

theorem padding_length_invariant_witness:
  "bytesToPad 1088 3 = Some 133 \<and> ((int 3 + 133) * 8) mod 1088 = (0::int)
   \<and> (\<exists>out. padNist [Field_from 97, Field_from 98, Field_from 99] 1088 = Inr out
         \<and> (int (length out) * 8) mod 1088 = 0)
   \<and> (\<exists>out. pad101 [Field_from 97, Field_from 98, Field_from 99] 1088 = Inr out
         \<and> (int (length out) * 8) mod 1088 = 0)"
  using padding_length_invariant [of 1088 "[Field_from 97, Field_from 98, Field_from 99]"]
  by (auto simp: bytesToPad_def js_rem_def)

text \<open>
  The claim as stated, for every rate, fails at rate 12 and the empty message: one pad
  byte is added and the padded length, 8 bits, is not a multiple of 12.
\<close>

theorem padding_length_counterexample:
  "bytesToPad 12 0 = Some 1 \<and> ((int 0 + 1) * 8) mod 12 = (8::int)
   \<and> padNist [] 12 = Inr [Field 134 []] \<and> pad101 [] 12 = Inr [Field 129 []]"
  by (simp add: bytesToPad_def js_rem_def padNist_def pad101_def padWith_def Array_fill_def
      Field_from_def add_def ORDER_def)

lemma padWith_by_extraBytes:
  assumes "8 \<le> rate"
  shows "rate div 8 - int (length message) mod (rate div 8) < 2 ^ 32 \<Longrightarrow>
           \<exists>out. padWith first message rate = Inr out"
    and "2 ^ 32 \<le> rate div 8 - int (length message) mod (rate div 8) \<Longrightarrow>
           padWith first message rate = Inl RangeError"
proof -
  let ?k = "rate div 8 - int (length message) mod (rate div 8)"
  have k: "1 \<le> ?k"
    using extraBytes_bounds(1) [OF assms] by simp
  show "\<exists>out. padWith first message rate = Inr out" if "?k < 2 ^ 32"
  proof -
    have "Array_fill (Some ?k) (Field_from 0) = Inr (replicate (nat ?k) (Field_from 0))"
      using k that by (simp add: Array_fill_def)
    moreover have "replicate (nat ?k) (Field_from 0) \<noteq> []"
      using k by simp
    ultimately show ?thesis
      by (simp add: padWith_def bytesToPad_ge8 [OF assms] Let_def)
  qed
  show "padWith first message rate = Inl RangeError" if "2 ^ 32 \<le> ?k"
    using that by (simp add: padWith_def bytesToPad_ge8 [OF assms] Let_def Array_fill_def)
qed

text \<open>
  Claim C6, amended. Neither padding function checks the rate. Their only failure is the
  RangeError of \<open>Array(extraBytes)\<close>, where
  \<open>extraBytes = floor(rate / 8) - (message.length % floor(rate / 8))\<close>. Both fail with it
  whenever the rate is below 8 (\<open>extraBytes\<close> is then NaN or negative), and for a rate of at
  least 8 exactly when \<open>extraBytes\<close> is \<open>2^32\<close> or more, which is not an array length. For
  a rate of at least 8 with \<open>extraBytes\<close> below \<open>2^32\<close>, so for every rate from 8 up to but
  not including \<open>2^35\<close>, both return a padded message, also when the rate is not a multiple
  of 8.
\<close>

theorem padding_rate_failure:
  "(rate < 8 \<longrightarrow> padNist message rate = Inl RangeError \<and> pad101 message rate = Inl RangeError)
   \<and> (8 \<le> rate \<and> rate div 8 - int (length message) mod (rate div 8) < 2 ^ 32 \<longrightarrow>
        (\<exists>out. padNist message rate = Inr out) \<and> (\<exists>out. pad101 message rate = Inr out))
   \<and> (8 \<le> rate \<and> 2 ^ 32 \<le> rate div 8 - int (length message) mod (rate div 8) \<longrightarrow>
        padNist message rate = Inl RangeError \<and> pad101 message rate = Inl RangeError)
   \<and> (8 \<le> rate \<and> rate < 2 ^ 35 \<longrightarrow>
        (\<exists>out. padNist message rate = Inr out) \<and> (\<exists>out. pad101 message rate = Inr out))"
proof -
  have small: "rate div 8 - int (length message) mod (rate div 8) < 2 ^ 32"
    if "8 \<le> rate" "rate < 2 ^ 35"
  proof -
    have "rate div 8 < 2 ^ 32" using that(2) by simp
    then show ?thesis using extraBytes_bounds(2) [OF that(1), of "length message"] by linarith
  qed
  show ?thesis
    using padWith_lt8 [of rate] padWith_by_extraBytes [of rate message] small
    by (simp add: padNist_def pad101_def)
qed

theorem padding_rate_failure_witness:
  "padNist [] 0 = Inl RangeError \<and> pad101 [] 0 = Inl RangeError
   \<and> padNist [] (- 8) = Inl RangeError \<and> pad101 [] (- 8) = Inl RangeError
   \<and> (\<exists>out. padNist [] 12 = Inr out) \<and> (\<exists>out. pad101 [] 12 = Inr out)
   \<and> (\<exists>out. padNist [Field_from 97] 1088 = Inr out)
   \<and> (\<exists>out. pad101 [Field_from 97] 1088 = Inr out)
   \<and> padNist [] (2 ^ 35) = Inl RangeError \<and> pad101 [] (2 ^ 35) = Inl RangeError"
  using padding_rate_failure [of 0 "[]"] padding_rate_failure [of "- 8" "[]"]
    padding_rate_failure [of 12 "[]"] padding_rate_failure [of 1088 "[Field_from 97]"]
    padding_rate_failure [of "2 ^ 35" "[]"]
  by simp

text \<open>
  The claim as stated fails at rate 12, which is not a multiple of 8: both functions
  return a one-byte padding.
\<close>

theorem padding_rate_counterexample:
  "padNist [] 12 = Inr [Field_from 134] \<and> pad101 [] 12 = Inr [Field_from 129]
   \<and> (12::int) mod 8 = 4"
  by (simp add: bytesToPad_def js_rem_def padNist_def pad101_def padWith_def Array_fill_def
      Field_from_def add_def ORDER_def)

section \<open>Permutation driver\<close>

lemma existsOne_apply:
  "existsOne v c = (Inr (Field (v mod ORDER) [witnesses c]), c\<lparr>witnesses := witnesses c + 1\<rparr>)"
  by (simp add: existsOne_def)

lemma bind_apply:
  "bind m f c = (case m c of (Inl e, c') \<Rightarrow> (Inl e, c') | (Inr x, c') \<Rightarrow> f x c')"
  by (simp add: bind_def)

lemma mapM_existsOne:
  "mapM (\<lambda>i. existsOne (f i)) xs c =
     (Inr (map (\<lambda>(k, i). Field (f i mod ORDER) [k])
             (zip [witnesses c..<witnesses c + length xs] xs)),
      c\<lparr>witnesses := witnesses c + length xs\<rparr>)"
proof (induction xs arbitrary: c)
  case Nil
  then show ?case by simp
next
  case (Cons x xs)
  have upt: "[witnesses c..<Suc (witnesses c + length xs)] =
      witnesses c # [Suc (witnesses c)..<Suc (witnesses c + length xs)]"
    by (subst upt_rec) simp
  show ?case
    by (simp add: bind_apply existsOne_apply [of "f x" c] Cons.IH upt del: upt_Suc)
qed

lemma round_fn_unfold: "round_fn s r = iota (chi (piRho (theta s))) r"
  by (simp add: round_fn_def)

lemma foldl_round_fn_take:
  "i \<le> length rc \<Longrightarrow> foldl round_fn s (take i rc) = after_rounds s rc i"
proof (induction i)
  case 0
  then show ?case by simp
next
  case (Suc i)
  then have "take (Suc i) rc = take i rc @ [rc ! i]"
    by (simp add: take_Suc_conv_app_nth)
  with Suc show ?case by (simp add: round_fn_unfold)
qed

lemma permutation_after_rounds: "permutation s rc = after_rounds s rc (length rc)"
  using foldl_round_fn_take [of "length rc" rc s] by (simp add: permutation_def)

lemma exists_round_constants:
  "exists 24 (TupleN_fromArray 24 ROUND_CONSTANTS) c =
     (Inr (map (\<lambda>(k, v). Field (v mod ORDER) [k])
             (zip [witnesses c..<witnesses c + 24] ROUND_CONSTANTS)),
      c\<lparr>witnesses := witnesses c + 24\<rparr>)"
proof -
  have len: "length ROUND_CONSTANTS = 24" by (simp add: ROUND_CONSTANTS_def)
  have "mapM existsOne ROUND_CONSTANTS = mapM (\<lambda>v. existsOne (id v)) ROUND_CONSTANTS"
    by simp
  then show ?thesis
    using mapM_existsOne [of id ROUND_CONSTANTS c]
    by (simp add: exists_def TupleN_fromArray_def len)
qed

lemma ROUND_CONSTANTS_below_ORDER: "\<forall>v \<in> set ROUND_CONSTANTS. v < ORDER"
  by (simp add: ROUND_CONSTANTS_def ORDER_def)

text \<open>
  Claim C4. The round constants that \<open>sponge\<close> declares are 24 field elements holding
  \<open>ROUND_CONSTANTS\<close>, and for every state the permutation driver is the left fold of
  \<open>round\<close> over them: the state after 24 rounds, round \<open>i\<close> applying theta, rho/pi, chi and
  then iota with the \<open>i\<close>-th constant.
\<close>

theorem permutation_applies_24_rounds:
  "case exists 24 (TupleN_fromArray 24 ROUND_CONSTANTS) c of
     (Inr rc, _) \<Rightarrow>
        length rc = 24 \<and> map toBigInt rc = ROUND_CONSTANTS
        \<and> permutation state rc = foldl round_fn state rc
        \<and> permutation state rc = after_rounds state rc 24
   | (Inl _, _) \<Rightarrow> False"
proof -
  let ?rc = "map (\<lambda>(k, v). Field (v mod ORDER) [k])
               (zip [witnesses c..<witnesses c + 24] ROUND_CONSTANTS)"
  have len: "length ROUND_CONSTANTS = 24" by (simp add: ROUND_CONSTANTS_def)
  then have l: "length ?rc = 24" by simp
  have "map toBigInt ?rc = map (\<lambda>v. v mod ORDER) ROUND_CONSTANTS"
    using len by (intro nth_equalityI) simp_all
  also have "\<dots> = ROUND_CONSTANTS"
    using ROUND_CONSTANTS_below_ORDER by (simp add: map_idI)
  finally have v: "map toBigInt ?rc = ROUND_CONSTANTS" .
  have "permutation state ?rc = after_rounds state ?rc 24"
    using permutation_after_rounds [of state ?rc] l by simp
  then show ?thesis
    using l v by (simp add: exists_round_constants permutation_def del: length_map)
qed

section \<open>Byte decomposition and squeeze\<close>

lemma zip_upt_shift:
  "map (\<lambda>(k, i). g k i) (zip [w..<w + n] [0..<n]) = map (\<lambda>i. g (w + i) i) [0..<n]"
  by (intro nth_equalityI) simp_all

lemma concat_rev_singletons: "concat (rev (map (\<lambda>x. [g x]) xs)) = rev (map g xs)"
  by (induction xs) simp_all

lemma forM_prepend:
  assumes "\<And>y c. f y c = (Inr (), c\<lparr>constraints := K y @ constraints c\<rparr>)"
  shows "forM ys f c = (Inr (), c\<lparr>constraints := concat (rev (map K ys)) @ constraints c\<rparr>)"
proof (induction ys arbitrary: c)
  case Nil
  then show ?case by simp
next
  case (Cons y ys)
  show ?case by (simp add: bind_apply assms [of y c] Cons.IH)
qed

lemma checkBytesToWord_apply:
  "checkBytesToWord word wordBytes c =
     (Inr (), c\<lparr>constraints := [AssertEquals word (composition wordBytes)] @ constraints c\<rparr>)"
  by (simp add: checkBytesToWord_def assertEquals_def)

lemma keccakStateToBytes_apply:
  "keccakStateToBytes s c =
     (Inr (witnessedBytes s (witnesses c)),
      c\<lparr>witnesses := witnesses c + 200,
        constraints := wordChecks s (witnessedBytes s (witnesses c)) @ constraints c\<rparr>)"
proof -
  let ?bs = "witnessedBytes s (witnesses c)"
  have bytes: "mapM (\<lambda>idx. existsOne (byteOfState s idx)) [0..<200] c =
      (Inr ?bs, c\<lparr>witnesses := witnesses c + 200\<rparr>)"
    using mapM_existsOne [of "byteOfState s" "[0..<200]" c]
      zip_upt_shift [of "\<lambda>k i. Field (byteOfState s i mod ORDER) [k]" "witnesses c" 200]
    by (simp add: witnessedBytes_def)
  have inner: "forM [0..<5] (\<lambda>x.
        checkBytesToWord (lane s x y) (slice ?bs (8 * (5 * y + x)) (8 * (5 * y + x) + 8))) c' =
      (Inr (), c'\<lparr>constraints := rev (map (\<lambda>x. AssertEquals (lane s x y)
              (composition (slice ?bs (8 * (5 * y + x)) (8 * (5 * y + x) + 8)))) [0..<5])
            @ constraints c'\<rparr>)" for y c'
    using forM_prepend [where f = "\<lambda>x. checkBytesToWord (lane s x y)
          (slice ?bs (8 * (5 * y + x)) (8 * (5 * y + x) + 8))"
        and K = "\<lambda>x. [AssertEquals (lane s x y)
          (composition (slice ?bs (8 * (5 * y + x)) (8 * (5 * y + x) + 8)))]"
        and ys = "[0..<5]" and c = c']
    by (simp add: checkBytesToWord_apply concat_rev_singletons del: upt_Suc)
  have outer: "forM [0..<5] (\<lambda>y. forM [0..<5] (\<lambda>x.
        checkBytesToWord (lane s x y) (slice ?bs (8 * (5 * y + x)) (8 * (5 * y + x) + 8)))) c' =
      (Inr (), c'\<lparr>constraints := wordChecks s ?bs @ constraints c'\<rparr>)" for c'
    unfolding wordChecks_def by (rule forM_prepend) (rule inner)
  note outer' = outer [simplified]
  show ?thesis
    by (simp add: keccakStateToBytes_def bind_apply bytes outer' KECCAK_STATE_LENGTH_1600
        KECCAK_DIM_def BYTES_PER_WORD_def KECCAK_WORD_def KECCAK_ELL_def Let_def)
qed

lemma length_witnessedBytes [simp]: "length (witnessedBytes s w) = 200"
  by (simp add: witnessedBytes_def)

lemma length_copy [simp]: "length (copy bs out start n) = length out"
  by (induction n) (simp_all add: copy_def)

lemma nth_copy:
  assumes "i < length out"
  shows "copy bs out start n ! i =
           (if start \<le> i \<and> i < start + n then bs ! (i - start) else out ! i)"
  using assms
proof (induction n)
  case 0
  then show ?case by (auto simp: copy_def)
next
  case (Suc n)
  have step: "copy bs out start (Suc n) = (copy bs out start n)[start + n := bs ! n]"
    by (simp add: copy_def)
  show ?case
  proof (cases "i = start + n")
    case True
    then show ?thesis using Suc.prems by (simp add: step)
  next
    case False
    then show ?thesis using Suc by (simp add: step)
  qed
qed

lemma take_copy_prefix:
  assumes "m \<le> n" and "n \<le> length bs"
  shows "take m (copy (take n bs) (replicate n z) 0 n) = take m bs"
  using assms by (intro nth_equalityI) (simp_all add: nth_copy)

lemma squeeze_one_chunk:
  assumes "len < rate" and "rate \<le> 1600" and "rate div 8 < 2 ^ 32"
  shows "squeeze state len rate rc =
           bind (keccakStateToBytes state) (\<lambda>bytestring. return (take (len div 8) bytestring))"
proof
  fix c
  have sq: "len div rate = 0" using assms(1) by simp
  have le: "len div 8 \<le> rate div 8" using assms(1) by (simp add: div_le_mono)
  have le2: "rate div 8 \<le> 200" using assms(2) by simp
  have fill: "Array_fill (Some (int (rate div 8))) (Field_from 0) =
      Inr (replicate (rate div 8) (Field_from 0))"
    using assms(3) by (simp add: Array_fill_def)
  show "squeeze state len rate rc c =
      bind (keccakStateToBytes state) (\<lambda>bytestring. return (take (len div 8) bytestring)) c"
    using le le2
    by (simp add: squeeze_def sq fill bind_apply keccakStateToBytes_apply slice_def
        take_copy_prefix Let_def)
qed

lemma sponge_one_chunk:
  assumes "len < rate" and "rate \<le> 1600"
  shows "sponge paddedMessage len capacity rate =
     (if rate = 0 \<or> (length paddedMessage * 8) mod rate \<noteq> 0
      then throw (Error ''Invalid padded message length'')
      else bind (exists 24 (TupleN_fromArray 24 ROUND_CONSTANTS)) (\<lambda>rc.
           bind (lift (absorb paddedMessage capacity rate rc)) (\<lambda>state.
           bind (keccakStateToBytes state) (\<lambda>bytestring.
             return (take (len div 8) bytestring)))))"
proof -
  have "rate div 8 < 2 ^ 32" using assms(2) by simp
  then show ?thesis
    using assms by (simp add: sponge_def squeeze_one_chunk)
qed

section \<open>State codec: round trip\<close>

lemma upt_5: "[0..<5] = [0, 1, 2, 3, 4::nat]"
  unfolding numeral_eq_Suc by (simp add: upt_rec)

lemma upt_8: "[0..<8] = [0, 1, 2, 3, 4, 5, 6, 7::nat]"
  unfolding numeral_eq_Suc by (simp add: upt_rec)

lemma list_update_numeral: "(x # xs)[numeral n := v] = x # xs[pred_numeral n := v]"
  by (simp add: numeral_eq_Suc)

lemma replicate_numeral: "replicate (numeral n) x = x # replicate (pred_numeral n) x"
  by (simp add: numeral_eq_Suc)

lemma lane_set_lane:
  "x < length st \<Longrightarrow> y < length (st ! x) \<Longrightarrow> lane (set_lane st x y v) x y = v"
  by (simp add: lane_def set_lane_def)

lemma set_lane_set_lane: "set_lane (set_lane st x y v) x y v' = set_lane st x y v'"
  by (cases "x < length st") (simp_all add: set_lane_def list_update_beyond)

lemma length_set_lane [simp]: "length (set_lane st x y v) = length st"
  by (simp add: set_lane_def)

lemma length_nth_set_lane [simp]: "length (set_lane st x y v ! x') = length (st ! x')"
  by (cases "x < length st"; cases "x = x'") (simp_all add: set_lane_def list_update_beyond)

lemma fold_into_lane:
  assumes "x < length st" and "y < length (st ! x)"
  shows "fold (\<lambda>z state. set_lane state x y (g (lane state x y) z)) zs st =
           (if zs = [] then st else set_lane st x y (foldl g (lane st x y) zs))"
  using assms
proof (induction zs arbitrary: st)
  case Nil
  then show ?case by simp
next
  case (Cons z zs)
  then show ?case
    by (simp add: lane_set_lane set_lane_set_lane)
qed

lemma zeros_explicit: "getKeccakStateZeros = 
  [[Field 0 [], Field 0 [], Field 0 [], Field 0 [], Field 0 []],
   [Field 0 [], Field 0 [], Field 0 [], Field 0 [], Field 0 []],
   [Field 0 [], Field 0 [], Field 0 [], Field 0 [], Field 0 []],
   [Field 0 [], Field 0 [], Field 0 [], Field 0 [], Field 0 []],
   [Field 0 [], Field 0 [], Field 0 [], Field 0 [], Field 0 []]]"
  by (simp add: getKeccakStateZeros_def KECCAK_DIM_def replicate_numeral Field_from_def ORDER_def)

lemma word_loop:
  assumes "x < length st" and "y < length (st ! x)" and "lane st x y = Field 0 []"
  shows "fold (\<lambda>z state. set_lane state x y
                  (add (lane state x y) (mul (Field_from (2 ^ (8 * z))) (wordBytes ! z))))
           [0..<8] st = set_lane st x y (wordOfBytes wordBytes)"
  using fold_into_lane [OF assms(1,2),
      of "\<lambda>acc z. add acc (mul (Field_from (2 ^ (8 * z))) (wordBytes ! z))" "[0..<8]"]
  by (simp add: assms(3) wordOfBytes_def Field_from_def del: upt_Suc)

lemma getKeccakStateOfBytes_lanes:
  assumes "length b = 200"
  shows "getKeccakStateOfBytes b =
           Inr (map (\<lambda>x. map (\<lambda>y. wordOfBytes (slice b (8 * (5 * y + x)) (8 * (5 * y + x) + 8)))
                            [0..<5]) [0..<5])"
  using assms
  by (simp add: getKeccakStateOfBytes_def zeros_explicit KECCAK_DIM_def
      BYTES_PER_WORD_def KECCAK_WORD_def KECCAK_ELL_def upt_5 Let_def
      word_loop [unfolded set_lane_def lane_def]
      set_lane_def lane_def list_update_numeral del: upt_Suc)

lemma slice_map:
  assumes "idx + 8 \<le> length b"
  shows "slice b idx (idx + 8) = map (\<lambda>z. b ! (idx + z)) [0..<8]"
  using assms by (intro nth_equalityI) (simp_all add: slice_def del: upt_Suc)

lemma slice_bytes:
  assumes "idx + 8 \<le> length b"
  shows "slice b idx (idx + 8) =
     [b ! idx, b ! (idx + 1), b ! (idx + 2), b ! (idx + 3),
      b ! (idx + 4), b ! (idx + 5), b ! (idx + 6), b ! (idx + 7)]"
  by (simp add: slice_map [OF assms] upt_8)

lemma toBigInt_wordOfBytes:
  assumes "toBigInt f0 < 256" "toBigInt f1 < 256" "toBigInt f2 < 256" "toBigInt f3 < 256"
    "toBigInt f4 < 256" "toBigInt f5 < 256" "toBigInt f6 < 256" "toBigInt f7 < 256"
  shows "toBigInt (wordOfBytes [f0, f1, f2, f3, f4, f5, f6, f7]) =
           horner (map toBigInt [f0, f1, f2, f3, f4, f5, f6, f7])"
  using assms
  by (simp add: wordOfBytes_def horner_def upt_8 add_def mul_def Field_from_def ORDER_def)

lemma horner_digit:
  assumes "\<forall>v \<in> set vs. v < 256" and "k < length vs"
  shows "horner vs div 256 ^ k mod 256 = vs ! k"
  using assms
proof (induction vs arbitrary: k)
  case Nil
  then show ?case by simp
next
  case (Cons v vs)
  have h: "horner (v # vs) = v + 256 * horner vs"
    by (simp add: horner_def)
  show ?case
  proof (cases k)
    case 0
    then show ?thesis using Cons.prems by (simp add: h)
  next
    case (Suc j)
    have "horner (v # vs) div 256 ^ Suc j = (v + 256 * horner vs) div 256 div 256 ^ j"
      by (simp add: h div_mult2_eq)
    also have "(v + 256 * horner vs) div 256 = horner vs"
      using Cons.prems(1) by simp
    finally show ?thesis
      using Cons.IH [of j] Cons.prems Suc by simp
  qed
qed

lemma and_255: "(w::nat) AND 255 = w mod 256"
proof -
  have "(255::nat) = mask 8" by (simp add: mask_eq_exp_minus_1)
  then have "w AND 255 = take_bit 8 w" by (simp add: take_bit_eq_mask)
  then show ?thesis by (simp add: take_bit_eq_mod)
qed

lemma byteOfState_of_bytes:
  assumes len: "length b = 200" and bytes: "\<forall>f \<in> set b. toBigInt f < 256"
    and s: "getKeccakStateOfBytes b = Inr s" and i: "i < 200"
  shows "byteOfState s i = toBigInt (b ! i)"
proof -
  define k where "k = i div 8"
  define z where "z = i mod 8"
  have k: "k < 25" and z: "z < 8" and ikz: "i = 8 * k + z"
    using i by (simp_all add: k_def z_def)
  have xy: "k mod 5 < 5" "k div 5 < 5" "5 * (k div 5) + k mod 5 = k"
    using k by simp_all
  have s_eq: "s = map (\<lambda>x. map (\<lambda>y.
        wordOfBytes (slice b (8 * (5 * y + x)) (8 * (5 * y + x) + 8))) [0..<5]) [0..<5]"
    using s getKeccakStateOfBytes_lanes [OF len] by simp
  have e: "40 * (k div 5) + 8 * (k mod 5) = 8 * k"
    by presburger
  have lane: "lane s (k mod 5) (k div 5) = wordOfBytes (slice b (8 * k) (8 * k + 8))"
    unfolding s_eq lane_def using xy(1,2) by (simp add: e del: upt_Suc)
  have in_range: "8 * k + 8 \<le> length b"
    using k len by simp
  have small: "toBigInt (b ! (8 * k + j)) < 256" if "j < 8" for j
    using bytes k len that by simp
  let ?vs = "map toBigInt (slice b (8 * k) (8 * k + 8))"
  have word: "toBigInt (lane s (k mod 5) (k div 5)) = horner ?vs"
    unfolding lane slice_bytes [OF in_range]
    by (intro toBigInt_wordOfBytes)
      (use small [of 0] small [of 1] small [of 2] small [of 3] small [of 4] small [of 5]
        small [of 6] small [of 7] in simp_all)
  have vs: "\<forall>v \<in> set ?vs. v < 256" "z < length ?vs" "?vs ! z = toBigInt (b ! i)"
    using small z by (auto simp: slice_map [OF in_range] ikz simp del: upt_Suc)
  have "byteOfState s i = horner ?vs div 2 ^ (8 * z) mod 256"
    using word
    by (simp add: byteOfState_def Let_def BYTES_PER_WORD_def KECCAK_WORD_def KECCAK_ELL_def
        KECCAK_DIM_def k_def [symmetric] z_def [symmetric] and_255 drop_bit_eq_div)
  also have "(2::nat) ^ (8 * z) = 256 ^ z"
    by (simp add: power_mult)
  finally show ?thesis
    using horner_digit [OF vs(1,2)] vs(3) by simp
qed

text \<open>
  Claim C3. For every sequence \<open>b\<close> of exactly 200 field elements whose values are bytes,
  \<open>getKeccakStateOfBytes\<close> returns a state, \<open>keccakStateToBytes\<close> of that state returns 200
  witnessed bytes, and their values are those of \<open>b\<close>.
\<close>

theorem state_bytes_round_trip:
  assumes "length b = 200" and "\<forall>f \<in> set b. toBigInt f < 256"
  shows "\<exists>s. getKeccakStateOfBytes b = Inr s \<and>
           (\<exists>bytes c'. keccakStateToBytes s c = (Inr bytes, c') \<and>
                        map toBigInt bytes = map toBigInt b)"
proof -
  obtain s where s: "getKeccakStateOfBytes b = Inr s"
    using getKeccakStateOfBytes_lanes [OF assms(1)] by blast
  have below: "toBigInt (b ! i) < ORDER" if "i < 200" for i
  proof -
    have "toBigInt (b ! i) < 256" using assms that by simp
    then show ?thesis by (simp add: ORDER_def)
  qed
  have "map toBigInt (witnessedBytes s (witnesses c)) = map toBigInt b"
    using assms(1) below byteOfState_of_bytes [OF assms s]
    by (intro nth_equalityI) (simp_all add: witnessedBytes_def del: upt_Suc)
  then show ?thesis
    using s keccakStateToBytes_apply [of s c] by blast
qed

theorem state_bytes_round_trip_witness:
  "\<exists>s. getKeccakStateOfBytes (map Field_from [0..<200]) = Inr s \<and>
     (\<exists>bytes c'. keccakStateToBytes s empty_circuit = (Inr bytes, c') \<and>
                  map toBigInt bytes = map toBigInt (map Field_from [0..<200]))"
proof -
  have "\<forall>f \<in> set (map Field_from [0..<200]). toBigInt f < 256"
    by (auto simp: Field_from_def ORDER_def simp del: upt_Suc)
  then show ?thesis
    using state_bytes_round_trip [of "map Field_from [0..<200]" empty_circuit]
    by (simp del: upt_Suc)
qed

section \<open>The facade on the supported parameters\<close>

lemma bind_assoc: "bind (bind m f) g = bind m (\<lambda>x. bind (f x) g)"
  by (rule ext) (simp add: bind_def split: prod.splits sum.splits)

lemma bind_if: "bind (if b then m else n) g = (if b then bind m g else bind n g)"
  by simp

lemma hash_supported:
  assumes "len < 1600 - 2 * len" and "0 < len" and "len mod 8 = 0"
  shows "hash inpEndian outEndian byteChecks message (int len) (2 * int len) nistVersion =
     (let messageFormatted = (if inpEndian = Big then message else rev message)
      in bind (if byteChecks then checkBytes messageFormatted else return ()) (\<lambda>_.
         bind (lift (if nistVersion then padNist messageFormatted (1600 - 2 * int len)
                     else pad101 messageFormatted (1600 - 2 * int len))) (\<lambda>padded.
           if (length padded * 8) mod (1600 - 2 * len) \<noteq> 0
           then throw (Error ''Invalid padded message length'')
           else bind (exists 24 (TupleN_fromArray 24 ROUND_CONSTANTS)) (\<lambda>rc.
                bind (lift (absorb padded (2 * len) (1600 - 2 * len) rc)) (\<lambda>state.
                bind (keccakStateToBytes state) (\<lambda>bytestring.
                bind (checkBytes (take (len div 8) bytestring)) (\<lambda>_.
                  return (if outEndian = Big then take (len div 8) bytestring
                          else rev (take (len div 8) bytestring)))))))))"
proof -
  have cap: "0 < 2 * int len" "2 * int len < 1600" "nat (2 * int len) = 2 * len"
      "nat (1600 - 2 * int len) = 1600 - 2 * len" "1600 - 2 * len \<noteq> 0"
    using assms by simp_all
  have rem: "js_rem (int len) 8 = Some 0"
    using assms(2,3) by (simp add: js_rem_def) presburger
  have sp: "sponge padded len (2 * len) (1600 - 2 * len) =
           (if (length padded * 8) mod (1600 - 2 * len) \<noteq> 0
            then throw (Error ''Invalid padded message length'')
            else bind (exists 24 (TupleN_fromArray 24 ROUND_CONSTANTS)) (\<lambda>rc.
                 bind (lift (absorb padded (2 * len) (1600 - 2 * len) rc)) (\<lambda>state.
                 bind (keccakStateToBytes state) (\<lambda>bytestring.
                   return (take (len div 8) bytestring)))))" for padded
    using sponge_one_chunk [OF assms(1), of padded "2 * len"] cap(5) by simp
  show ?thesis
    using assms(2) cap
    by (simp add: hash_def KECCAK_STATE_LENGTH_1600 rem sp bind_assoc bind_if Let_def
        cong: if_cong)
qed

section \<open>Running the 24 rounds on given lanes\<close>

text \<open>
  The four steps of a round written out on a 5 x 5 state, and the gadgets on given
  numbers, so that a permutation of a given state is computed by rewriting.
\<close>

lemma theta_explicit:
  "theta [r0, r1, r2, r3, r4] =
     [map (\<lambda>elem. Gadgets_xor elem (Gadgets_xor (reduce1 (\<lambda>acc next. Gadgets_xor acc next 64) r4)
            (Gadgets_rotate (reduce1 (\<lambda>acc next. Gadgets_xor acc next 64) r1) 1 Left) 64) 64) r0,
      map (\<lambda>elem. Gadgets_xor elem (Gadgets_xor (reduce1 (\<lambda>acc next. Gadgets_xor acc next 64) r0)
            (Gadgets_rotate (reduce1 (\<lambda>acc next. Gadgets_xor acc next 64) r2) 1 Left) 64) 64) r1,
      map (\<lambda>elem. Gadgets_xor elem (Gadgets_xor (reduce1 (\<lambda>acc next. Gadgets_xor acc next 64) r1)
            (Gadgets_rotate (reduce1 (\<lambda>acc next. Gadgets_xor acc next 64) r3) 1 Left) 64) 64) r2,
      map (\<lambda>elem. Gadgets_xor elem (Gadgets_xor (reduce1 (\<lambda>acc next. Gadgets_xor acc next 64) r2)
            (Gadgets_rotate (reduce1 (\<lambda>acc next. Gadgets_xor acc next 64) r4) 1 Left) 64) 64) r3,
      map (\<lambda>elem. Gadgets_xor elem (Gadgets_xor (reduce1 (\<lambda>acc next. Gadgets_xor acc next 64) r3)
            (Gadgets_rotate (reduce1 (\<lambda>acc next. Gadgets_xor acc next 64) r0) 1 Left) 64) 64) r4]"
  by (simp add: theta_def KECCAK_DIM_def KECCAK_WORD_def KECCAK_ELL_def upt_5 Let_def)

lemma piRho_explicit:
  "piRho [[a0, a1, a2, a3, a4],
         [b0, b1, b2, b3, b4],
         [c0, c1, c2, c3, c4],
         [d0, d1, d2, d3, d4],
         [e0, e1, e2, e3, e4]] =
     [[Gadgets_rotate a0 0 Left,
       Gadgets_rotate d0 28 Left,
       Gadgets_rotate b0 1 Left,
       Gadgets_rotate e0 27 Left,
       Gadgets_rotate c0 62 Left],
      [Gadgets_rotate b1 44 Left,
       Gadgets_rotate e1 20 Left,
       Gadgets_rotate c1 6 Left,
       Gadgets_rotate a1 36 Left,
       Gadgets_rotate d1 55 Left],
      [Gadgets_rotate c2 43 Left,
       Gadgets_rotate a2 3 Left,
       Gadgets_rotate d2 25 Left,
       Gadgets_rotate b2 10 Left,
       Gadgets_rotate e2 39 Left],
      [Gadgets_rotate d3 21 Left,
       Gadgets_rotate b3 45 Left,
       Gadgets_rotate e3 8 Left,
       Gadgets_rotate c3 15 Left,
       Gadgets_rotate a3 41 Left],
      [Gadgets_rotate e4 14 Left,
       Gadgets_rotate c4 61 Left,
       Gadgets_rotate a4 18 Left,
       Gadgets_rotate d4 56 Left,
       Gadgets_rotate b4 2 Left]]"
  by (simp add: piRho_def set_lane_def lane_def getKeccakStateZeros_def KECCAK_DIM_def
        ROT_TABLE_def upt_5 replicate_numeral list_update_numeral)

lemma chi_explicit:
  "chi [[a0, a1, a2, a3, a4],
       [b0, b1, b2, b3, b4],
       [c0, c1, c2, c3, c4],
       [d0, d1, d2, d3, d4],
       [e0, e1, e2, e3, e4]] =
     [[Gadgets_xor a0 (Gadgets_and (Gadgets_not b0 64 False) c0 64) 64,
       Gadgets_xor a1 (Gadgets_and (Gadgets_not b1 64 False) c1 64) 64,
       Gadgets_xor a2 (Gadgets_and (Gadgets_not b2 64 False) c2 64) 64,
       Gadgets_xor a3 (Gadgets_and (Gadgets_not b3 64 False) c3 64) 64,
       Gadgets_xor a4 (Gadgets_and (Gadgets_not b4 64 False) c4 64) 64],
      [Gadgets_xor b0 (Gadgets_and (Gadgets_not c0 64 False) d0 64) 64,
       Gadgets_xor b1 (Gadgets_and (Gadgets_not c1 64 False) d1 64) 64,
       Gadgets_xor b2 (Gadgets_and (Gadgets_not c2 64 False) d2 64) 64,
       Gadgets_xor b3 (Gadgets_and (Gadgets_not c3 64 False) d3 64) 64,
       Gadgets_xor b4 (Gadgets_and (Gadgets_not c4 64 False) d4 64) 64],
      [Gadgets_xor c0 (Gadgets_and (Gadgets_not d0 64 False) e0 64) 64,
       Gadgets_xor c1 (Gadgets_and (Gadgets_not d1 64 False) e1 64) 64,
       Gadgets_xor c2 (Gadgets_and (Gadgets_not d2 64 False) e2 64) 64,
       Gadgets_xor c3 (Gadgets_and (Gadgets_not d3 64 False) e3 64) 64,
       Gadgets_xor c4 (Gadgets_and (Gadgets_not d4 64 False) e4 64) 64],
      [Gadgets_xor d0 (Gadgets_and (Gadgets_not e0 64 False) a0 64) 64,
       Gadgets_xor d1 (Gadgets_and (Gadgets_not e1 64 False) a1 64) 64,
       Gadgets_xor d2 (Gadgets_and (Gadgets_not e2 64 False) a2 64) 64,
       Gadgets_xor d3 (Gadgets_and (Gadgets_not e3 64 False) a3 64) 64,
       Gadgets_xor d4 (Gadgets_and (Gadgets_not e4 64 False) a4 64) 64],
      [Gadgets_xor e0 (Gadgets_and (Gadgets_not a0 64 False) b0 64) 64,
       Gadgets_xor e1 (Gadgets_and (Gadgets_not a1 64 False) b1 64) 64,
       Gadgets_xor e2 (Gadgets_and (Gadgets_not a2 64 False) b2 64) 64,
       Gadgets_xor e3 (Gadgets_and (Gadgets_not a3 64 False) b3 64) 64,
       Gadgets_xor e4 (Gadgets_and (Gadgets_not a4 64 False) b4 64) 64]]"
  by (simp add: chi_def set_lane_def lane_def getKeccakStateZeros_def KECCAK_DIM_def
        KECCAK_WORD_def KECCAK_ELL_def upt_5 replicate_numeral list_update_numeral)

lemma iota_explicit:
  "iota ((a0 # r0) # rows) rc = (Gadgets_xor a0 rc 64 # r0) # rows"
  by (simp add: iota_def set_lane_def lane_def KECCAK_WORD_def KECCAK_ELL_def)

lemma xor_eval: "Gadgets_xor (Field a u) (Field b v) n = Field (a XOR b) []"
  by (simp add: Gadgets_xor_def)

lemma and_eval: "Gadgets_and (Field a u) (Field b v) n = Field (a AND b) []"
  by (simp add: Gadgets_and_def)

lemma not_eval: "Gadgets_not (Field a u) 64 c = Field (18446744073709551615 XOR a) []"
  by (simp add: Gadgets_not_def)

lemma rotl64_bits: "rotl64 w r = take_bit 64 (push_bit r w) + drop_bit (64 - r) w"
  by (simp add: rotl64_def take_bit_eq_mod push_bit_eq_mult drop_bit_eq_div)

lemma rotate_eval:
  "Gadgets_rotate (Field a u) 0 Left = Field (take_bit 64 (push_bit 0 a) + drop_bit 64 a) []"
  "Gadgets_rotate (Field a u) 1 Left = Field (take_bit 64 (push_bit 1 a) + drop_bit 63 a) []"
  "Gadgets_rotate (Field a u) 2 Left = Field (take_bit 64 (push_bit 2 a) + drop_bit 62 a) []"
  "Gadgets_rotate (Field a u) 3 Left = Field (take_bit 64 (push_bit 3 a) + drop_bit 61 a) []"
  "Gadgets_rotate (Field a u) 6 Left = Field (take_bit 64 (push_bit 6 a) + drop_bit 58 a) []"
  "Gadgets_rotate (Field a u) 8 Left = Field (take_bit 64 (push_bit 8 a) + drop_bit 56 a) []"
  "Gadgets_rotate (Field a u) 10 Left = Field (take_bit 64 (push_bit 10 a) + drop_bit 54 a) []"
  "Gadgets_rotate (Field a u) 14 Left = Field (take_bit 64 (push_bit 14 a) + drop_bit 50 a) []"
  "Gadgets_rotate (Field a u) 15 Left = Field (take_bit 64 (push_bit 15 a) + drop_bit 49 a) []"
  "Gadgets_rotate (Field a u) 18 Left = Field (take_bit 64 (push_bit 18 a) + drop_bit 46 a) []"
  "Gadgets_rotate (Field a u) 20 Left = Field (take_bit 64 (push_bit 20 a) + drop_bit 44 a) []"
  "Gadgets_rotate (Field a u) 21 Left = Field (take_bit 64 (push_bit 21 a) + drop_bit 43 a) []"
  "Gadgets_rotate (Field a u) 25 Left = Field (take_bit 64 (push_bit 25 a) + drop_bit 39 a) []"
  "Gadgets_rotate (Field a u) 27 Left = Field (take_bit 64 (push_bit 27 a) + drop_bit 37 a) []"
  "Gadgets_rotate (Field a u) 28 Left = Field (take_bit 64 (push_bit 28 a) + drop_bit 36 a) []"
  "Gadgets_rotate (Field a u) 36 Left = Field (take_bit 64 (push_bit 36 a) + drop_bit 28 a) []"
  "Gadgets_rotate (Field a u) 39 Left = Field (take_bit 64 (push_bit 39 a) + drop_bit 25 a) []"
  "Gadgets_rotate (Field a u) 41 Left = Field (take_bit 64 (push_bit 41 a) + drop_bit 23 a) []"
  "Gadgets_rotate (Field a u) 43 Left = Field (take_bit 64 (push_bit 43 a) + drop_bit 21 a) []"
  "Gadgets_rotate (Field a u) 44 Left = Field (take_bit 64 (push_bit 44 a) + drop_bit 20 a) []"
  "Gadgets_rotate (Field a u) 45 Left = Field (take_bit 64 (push_bit 45 a) + drop_bit 19 a) []"
  "Gadgets_rotate (Field a u) 55 Left = Field (take_bit 64 (push_bit 55 a) + drop_bit 9 a) []"
  "Gadgets_rotate (Field a u) 56 Left = Field (take_bit 64 (push_bit 56 a) + drop_bit 8 a) []"
  "Gadgets_rotate (Field a u) 61 Left = Field (take_bit 64 (push_bit 61 a) + drop_bit 3 a) []"
  "Gadgets_rotate (Field a u) 62 Left = Field (take_bit 64 (push_bit 62 a) + drop_bit 2 a) []"
  by (simp_all add: Gadgets_rotate_def rotl64_bits)

lemma drop_bit_numeral_One: "drop_bit (numeral l) (numeral Num.One) = (0::nat)"
  by simp

lemma push_bit_1_numeral: "push_bit 1 (numeral k) = (numeral (Num.Bit0 k) :: nat)"
  by (simp add: push_bit_eq_mult numeral_Bit0 [of k] mult_2_right)

lemma Field_one: "Field 1 u = Field (numeral Num.One) u"
  by simp

lemma reduce1_Cons: "reduce1 f (x # xs) = foldl f x xs"
  by (simp add: reduce1_def)

lemmas keccak_eval =
  round_fn_unfold theta_explicit piRho_explicit chi_explicit iota_explicit
  reduce1_Cons foldl_Nil foldl_Cons list.map
  xor_eval and_eval not_eval rotate_eval Field_one
  numeral_xor_num xor_num.simps numeral_and_num and_num.simps option.case option.map
  xor.left_neutral xor.right_neutral and_zero_eq zero_and_eq
  take_bit_numeral_numeral take_bit_num_simps pred_numeral_simps BitM.simps
  push_bit_numeral push_bit_0_id id_apply push_bit_of_0 take_bit_of_0
  drop_bit_numeral_bit0 drop_bit_numeral_bit1 drop_bit_0 drop_bit_of_0 drop_bit_numeral_One push_bit_1_numeral
  numeral_plus_numeral add_num_simps add_0 add_0_right

lemma iota_value: "iota s (Field (toBigInt r) []) = iota s r"
  by (simp add: iota_def Gadgets_xor_def)

lemma permutation_values:
  "map toBigInt rc = map toBigInt rc' \<Longrightarrow> permutation s rc = permutation s rc'"
proof (induction rc arbitrary: rc' s)
  case Nil
  then show ?case by (simp add: permutation_def)
next
  case (Cons r rc)
  then obtain r' rc'' where rc': "rc' = r' # rc''" "toBigInt r = toBigInt r'"
      "map toBigInt rc = map toBigInt rc''"
    by (cases rc') auto
  have "round_fn s r = round_fn s r'"
    using iota_value [of _ r] iota_value [of _ r'] rc'(2) by (simp add: round_fn_unfold)
  then show ?case
    using Cons.IH [OF rc'(3)] rc'(1) by (simp add: permutation_def)
qed

lemma constant_fields:
  "map (\<lambda>v. Field v []) ROUND_CONSTANTS =
     [Field 1 [],
      Field 32898 [],
      Field 9223372036854808714 [],
      Field 9223372039002292224 [],
      Field 32907 [],
      Field 2147483649 [],
      Field 9223372039002292353 [],
      Field 9223372036854808585 [],
      Field 138 [],
      Field 136 [],
      Field 2147516425 [],
      Field 2147483658 [],
      Field 2147516555 [],
      Field 9223372036854775947 [],
      Field 9223372036854808713 [],
      Field 9223372036854808579 [],
      Field 9223372036854808578 [],
      Field 9223372036854775936 [],
      Field 32778 [],
      Field 9223372039002259466 [],
      Field 9223372039002292353 [],
      Field 9223372036854808704 [],
      Field 2147483649 [],
      Field 9223372039002292232 []]"
  by (simp add: ROUND_CONSTANTS_def)

lemma permutation_round_constants:
  assumes "map toBigInt rc = ROUND_CONSTANTS"
  shows "permutation s rc = permutation s (map (\<lambda>v. Field v []) ROUND_CONSTANTS)"
  using assms by (intro permutation_values) (simp add: comp_def)

lemma permutation_zero:
  "permutation getKeccakStateZeros (map (\<lambda>v. Field v []) ROUND_CONSTANTS) = zero_state_permuted"
  unfolding constant_fields zeros_explicit zero_state_permuted_def
  by (simp only: permutation_def keccak_eval)

lemma permutation_empty_message_block:
  "permutation empty_message_block (map (\<lambda>v. Field v []) ROUND_CONSTANTS) = empty_message_state"
  unfolding constant_fields empty_message_block_def empty_message_state_def
  by (simp only: permutation_def keccak_eval)

lemma Field_from_round_constants:
  "map Field_from ROUND_CONSTANTS = map (\<lambda>v. Field v []) ROUND_CONSTANTS"
  using ROUND_CONSTANTS_below_ORDER by (simp add: Field_from_def)

lemma round_constant_values:
  "map toBigInt (map (\<lambda>(k, v). Field (v mod ORDER) [k]) (zip [w..<w + 24] ROUND_CONSTANTS)) =
     ROUND_CONSTANTS"
proof -
  have len: "length ROUND_CONSTANTS = 24" by (simp add: ROUND_CONSTANTS_def)
  have "map toBigInt (map (\<lambda>(k, v). Field (v mod ORDER) [k]) (zip [w..<w + 24] ROUND_CONSTANTS)) =
      map (\<lambda>v. v mod ORDER) ROUND_CONSTANTS"
    using len by (intro nth_equalityI) simp_all
  also have "\<dots> = ROUND_CONSTANTS"
    using ROUND_CONSTANTS_below_ORDER by (simp add: map_idI)
  finally show ?thesis .
qed

section \<open>Keccak-256 of the empty message\<close>

lemma pad101_empty:
  "pad101 [] 1088 = Inr (Field 1 [] # replicate 134 (Field 0 []) @ [Field 128 []])"
  by (simp add: pad101_def padWith_def bytesToPad_def js_rem_def Array_fill_def Field_from_def
      add_def ORDER_def replicate_numeral list_update_numeral)

lemma wordOfBytes_zero:
  "wordOfBytes [Field 0 [], Field 0 [], Field 0 [], Field 0 [],
                Field 0 [], Field 0 [], Field 0 [], Field 0 []] = Field 0 []"
  by (simp add: wordOfBytes_def upt_8 add_def mul_def Field_from_def ORDER_def)

lemma wordOfBytes_first:
  "wordOfBytes [Field 1 [], Field 0 [], Field 0 [], Field 0 [],
                Field 0 [], Field 0 [], Field 0 [], Field 0 []] = Field 1 []"
  by (simp add: wordOfBytes_def upt_8 add_def mul_def Field_from_def ORDER_def)

lemma wordOfBytes_last:
  "wordOfBytes [Field 0 [], Field 0 [], Field 0 [], Field 0 [],
                Field 0 [], Field 0 [], Field 0 [], Field 128 []] =
     Field 9223372036854775808 []"
  by (simp add: wordOfBytes_def upt_8 add_def mul_def Field_from_def ORDER_def)

lemma empty_message_block_state:
  "getKeccakStateOfBytes
     ((Field 1 [] # replicate 134 (Field 0 []) @ [Field 128 []]) @ replicate 64 (Field 0 [])) =
   Inr empty_message_block"
  by (simp add: getKeccakStateOfBytes_lanes upt_5 slice_def replicate_numeral)
    (simp add: wordOfBytes_zero wordOfBytes_first [simplified] wordOfBytes_last
      empty_message_block_def)

lemma xor_into_zero_state:
  "keccakStateXor getKeccakStateZeros empty_message_block = Inr empty_message_block"
  by (simp add: keccakStateXor_def zeros_explicit empty_message_block_def KECCAK_DIM_def
      lane_def Gadgets_xor_def)

lemma absorb_empty_message:
  "absorb (Field 1 [] # replicate 134 (Field 0 []) @ [Field 128 []]) 512 1088 rc =
     Inr (permutation empty_message_block rc)"
  by (simp add: absorb_def blockStarts_def Array_fill_def slice_def Field_from_def ORDER_def
      KECCAK_STATE_LENGTH_1600 empty_message_block_state [simplified] xor_into_zero_state)

lemma checkBytes_apply:
  "checkBytes xs c = (Inr (), c\<lparr>constraints := rev (map RangeCheck8 xs) @ constraints c\<rparr>)"
  using forM_prepend [where f = rangeCheck8 and K = "\<lambda>x. [RangeCheck8 x]" and ys = xs and c = c]
  by (simp add: checkBytes_def rangeCheck8_def concat_rev_singletons)

text \<open>
  The whole run of \<open>ethereum\<close> on the empty message with big-endian input: the result and
  the circuit it leaves. The round constants are the witness variables
  \<open>witnesses c, ..., witnesses c + 23\<close>, the bytes of the final state the next 200.
\<close>

lemma ethereum_empty_run:
  "ethereum Big outEndian False [] c =
     (Inr (if outEndian = Big
           then take 32 (witnessedBytes empty_message_state (witnesses c + 24))
           else rev (take 32 (witnessedBytes empty_message_state (witnesses c + 24)))),
      c\<lparr>witnesses := witnesses c + 224,
        constraints :=
          rev (map RangeCheck8 (take 32 (witnessedBytes empty_message_state (witnesses c + 24))))
          @ wordChecks empty_message_state (witnessedBytes empty_message_state (witnesses c + 24))
          @ constraints c\<rparr>)"
proof -
  let ?P = "Field 1 [] # replicate 134 (Field 0 []) @ [Field 128 []]"
  let ?rc = "map (\<lambda>(k, v). Field (v mod ORDER) [k])
               (zip [witnesses c..<witnesses c + 24] ROUND_CONSTANTS)"
  have absorbed: "absorb ?P 512 1088 ?rc = Inr empty_message_state"
    using permutation_round_constants [OF round_constant_values, of empty_message_block "witnesses c"]
    by (simp only: absorb_empty_message permutation_empty_message_block)
  have h: "hash Big outEndian False [] (int 256) (2 * int 256) False = 
      bind (lift (pad101 [] 1088)) (\<lambda>padded.
                 if (length padded * 8) mod 1088 \<noteq> 0
                 then throw (Error ''Invalid padded message length'')
                 else bind (exists 24 (TupleN_fromArray 24 ROUND_CONSTANTS)) (\<lambda>rc.
                      bind (lift (absorb padded 512 1088 rc)) (\<lambda>state.
                      bind (keccakStateToBytes state) (\<lambda>bytestring.
                      bind (checkBytes (take 32 bytestring)) (\<lambda>_.
                        return (if outEndian = Big then take 32 bytestring
                                else rev (take 32 bytestring)))))))"
    by (subst hash_supported) (simp_all cong: if_cong)
  show ?thesis
    using h
    by (simp add: ethereum_def pad101_empty bind_apply exists_round_constants
        absorbed [simplified] keccakStateToBytes_apply checkBytes_apply)
qed

lemma upt_32:
  "[0..<32] = [0, 1, 2, 3, 4, 5, 6, 7, 8, 9, 10, 11, 12, 13, 14, 15, 16, 17, 18, 19, 20, 21,
               22, 23, 24, 25, 26, 27, 28, 29, 30, 31::nat]"
  unfolding numeral_eq_Suc by (simp add: upt_rec)

lemma empty_message_digest_bytes:
  "map toBigInt (take 32 (witnessedBytes empty_message_state w)) =
     [197, 210, 70, 1, 134, 247, 35, 60, 146, 126, 125, 178, 220, 199, 3, 192, 229, 0, 182, 83, 202, 130, 39, 59, 123, 250, 216, 4, 93, 133, 164, 112]"
proof -
  have "map toBigInt (take 32 (witnessedBytes empty_message_state w)) =
      map (\<lambda>i. byteOfState empty_message_state i mod ORDER) [0..<32]"
    by (simp add: witnessedBytes_def take_map comp_def del: upt_Suc)
  also have "\<dots> = map (\<lambda>i. byteOfState empty_message_state i) [0..<32]"
    by (simp add: byteOfState_def and_255 ORDER_def Let_def del: upt_Suc)
  also have "\<dots> = [197, 210, 70, 1, 134, 247, 35, 60, 146, 126, 125, 178, 220, 199, 3, 192, 229, 0, 182, 83, 202, 130, 39, 59, 123, 250, 216, 4, 93, 133, 164, 112]"
    unfolding upt_32 list.map
    by (simp add: byteOfState_def Let_def BYTES_PER_WORD_def KECCAK_WORD_def KECCAK_ELL_def
        KECCAK_DIM_def lane_def empty_message_state_def)
  finally show ?thesis .
qed

text \<open>
  Claim C9, amended. \<open>ethereum\<close> applied to the empty message, with big-endian input and
  output, returns the 32 bytes whose hexadecimal encoding is
  \<open>c5d2460186f7233c927e7db2dcc703c0e500b653ca82273b7bfad8045d85a470\<close>.
\<close>

theorem ethereum_empty_message_digest:
  "digest_hex (ethereum Big Big False []) =
     Inr ''c5d2460186f7233c927e7db2dcc703c0e500b653ca82273b7bfad8045d85a470''"
  by (simp add: digest_hex_def output_values_def ethereum_empty_run empty_message_digest_bytes
      hex_of_bytes_def hex_digit_def)

text \<open>
  The encoding in the claim as stated has 63 digits, the final \<open>0\<close> is missing: it is not
  the encoding of the digest (nor of any 32 bytes).
\<close>

theorem ethereum_empty_message_digest_counterexample:
  "digest_hex (ethereum Big Big False []) \<noteq>
     Inr ''c5d2460186f7233c927e7db2dcc703c0e500b653ca82273b7bfad8045d85a47''
   \<and> length ''c5d2460186f7233c927e7db2dcc703c0e500b653ca82273b7bfad8045d85a47'' = 63"
  by (simp add: digest_hex_def output_values_def ethereum_empty_run empty_message_digest_bytes
      hex_of_bytes_def hex_digit_def)

section \<open>One squeeze for the supported variants\<close>

text \<open>
  Claim C10, amended. For each supported output length (224, 256, 384, 512, with capacity
  twice the length, which are the parameters of \<open>nistSha3\<close>, \<open>preNist\<close> and \<open>ethereum\<close>)
  the length is at most the rate \<open>1600 - 2 * len\<close>, \<open>squeezes\<close> is 1, and \<open>squeeze\<close> is the
  byte decomposition of the state it is given cut to \<open>len / 8\<close> bytes: the round constants
  are not used, so no permutation runs after absorption. \<open>sponge\<close> therefore returns the
  first \<open>len / 8\<close> bytes of the decomposition of the state that \<open>absorb\<close> returned, and
  \<open>hash\<close>, which pads at rate \<open>1600 - capacity\<close>, calls \<open>sponge\<close> and range-checks its
  result, returns these bytes when \<open>outEndian\<close> is Big and these bytes in reverse order
  when \<open>outEndian\<close> is Little.
\<close>

theorem supported_variants_squeeze_once:
  assumes "len \<in> {224, 256, 384, 512}"
  shows "len \<le> 1600 - 2 * len
       \<and> len div (1600 - 2 * len) + 1 = 1
       \<and> squeeze state len (1600 - 2 * len) rc =
           bind (keccakStateToBytes state) (\<lambda>bytestring. return (take (len div 8) bytestring))
       \<and> sponge paddedMessage len (2 * len) (1600 - 2 * len) =
           (if (length paddedMessage * 8) mod (1600 - 2 * len) \<noteq> 0
            then throw (Error ''Invalid padded message length'')
            else bind (exists 24 (TupleN_fromArray 24 ROUND_CONSTANTS)) (\<lambda>rc.
                 bind (lift (absorb paddedMessage (2 * len) (1600 - 2 * len) rc)) (\<lambda>state.
                 bind (keccakStateToBytes state) (\<lambda>bytestring.
                   return (take (len div 8) bytestring)))))
       \<and> hash inpEndian outEndian byteChecks message (int len) (2 * int len) nistVersion =
           (let messageFormatted = (if inpEndian = Big then message else rev message)
            in bind (if byteChecks then checkBytes messageFormatted else return ()) (\<lambda>_.
               bind (lift (if nistVersion then padNist messageFormatted (1600 - 2 * int len)
                           else pad101 messageFormatted (1600 - 2 * int len))) (\<lambda>padded.
                 if (length padded * 8) mod (1600 - 2 * len) \<noteq> 0
                 then throw (Error ''Invalid padded message length'')
                 else bind (exists 24 (TupleN_fromArray 24 ROUND_CONSTANTS)) (\<lambda>rc.
                      bind (lift (absorb padded (2 * len) (1600 - 2 * len) rc)) (\<lambda>state.
                      bind (keccakStateToBytes state) (\<lambda>bytestring.
                      bind (checkBytes (take (len div 8) bytestring)) (\<lambda>_.
                        return (if outEndian = Big then take (len div 8) bytestring
                                else rev (take (len div 8) bytestring)))))))))
       \<and> nistSha3 (int len) message inpEndian outEndian byteChecks =
           hash inpEndian outEndian byteChecks message (int len) (2 * int len) True
       \<and> preNist (int len) message inpEndian outEndian byteChecks =
           hash inpEndian outEndian byteChecks message (int len) (2 * int len) False
       \<and> ethereum inpEndian outEndian byteChecks message =
           hash inpEndian outEndian byteChecks message 256 512 False"
proof -
  have lt: "len < 1600 - 2 * len" and le: "1600 - 2 * len \<le> 1600"
    and pos: "0 < len" and m8: "len mod 8 = 0" and nz: "1600 - 2 * len \<noteq> 0"
    using assms by auto
  have sq: "squeeze state len (1600 - 2 * len) rc =
      bind (keccakStateToBytes state) (\<lambda>bytestring. return (take (len div 8) bytestring))"
    using lt le by (intro squeeze_one_chunk) simp_all
  have sp: "sponge paddedMessage len (2 * len) (1600 - 2 * len) =
           (if (length paddedMessage * 8) mod (1600 - 2 * len) \<noteq> 0
            then throw (Error ''Invalid padded message length'')
            else bind (exists 24 (TupleN_fromArray 24 ROUND_CONSTANTS)) (\<lambda>rc.
                 bind (lift (absorb paddedMessage (2 * len) (1600 - 2 * len) rc)) (\<lambda>state.
                 bind (keccakStateToBytes state) (\<lambda>bytestring.
                   return (take (len div 8) bytestring)))))"
    using sponge_one_chunk [OF lt le, of paddedMessage "2 * len"] nz by simp
  note h = hash_supported [OF lt pos m8, of inpEndian outEndian byteChecks message nistVersion]
  have api: "nistSha3 (int len) message inpEndian outEndian byteChecks =
           hash inpEndian outEndian byteChecks message (int len) (2 * int len) True"
    "preNist (int len) message inpEndian outEndian byteChecks =
           hash inpEndian outEndian byteChecks message (int len) (2 * int len) False"
    using assms by (auto simp: nistSha3_def preNist_def ethereum_def)
  have one: "len div (1600 - 2 * len) + 1 = 1" using lt by simp
  have eth: "ethereum inpEndian outEndian byteChecks message =
           hash inpEndian outEndian byteChecks message 256 512 False"
    by (simp add: ethereum_def)
  from lt have "len \<le> 1600 - 2 * len" by simp
  then show ?thesis
    using one sq sp h api eth by (intro conjI)
qed

theorem supported_variants_squeeze_once_witness:
  "(512::nat) \<le> 1600 - 2 * 512
   \<and> 512 div (1600 - 2 * 512) + 1 = (1::nat)
   \<and> squeeze empty_message_state 512 576 (map Field_from ROUND_CONSTANTS) =
       bind (keccakStateToBytes empty_message_state)
         (\<lambda>bytestring. return (take 64 bytestring))
   \<and> nistSha3 512 [Field_from 97, Field_from 98] Little Little True =
       hash Little Little True [Field_from 97, Field_from 98] 512 1024 True
   \<and> preNist 512 [Field_from 97, Field_from 98] Little Little True =
       hash Little Little True [Field_from 97, Field_from 98] 512 1024 False"
  using supported_variants_squeeze_once [of 512 empty_message_state
      "map Field_from ROUND_CONSTANTS" "[]" Little Little True
      "[Field_from 97, Field_from 98]" True]
  by simp

text \<open>
  The claim as stated, the digest being the first \<open>len / 8\<close> bytes of the decomposition
  of the post-absorb state for every choice of \<open>outEndian\<close>, fails for \<open>ethereum\<close> on the
  empty message with little-endian output: the state after absorbing the padded message is
  \<open>empty_message_state\<close>, the first 32 bytes of its decomposition are \<open>c5 d2 ... a4 70\<close>,
  and the digest returned is \<open>70 a4 ... d2 c5\<close>.
\<close>

theorem little_endian_digest_is_reversed:
  "output_values (ethereum Big Little False []) =
     Inr [112, 164, 133, 93, 4, 216, 250, 123, 59, 39, 130, 202, 83, 182, 0, 229, 192, 3, 199, 220, 178, 125, 126, 146, 60, 35, 247, 134, 1, 70, 210, 197]
   \<and> ebind (pad101 [] 1088) (\<lambda>padded. absorb padded 512 1088 (map Field_from ROUND_CONSTANTS)) =
     Inr empty_message_state
   \<and> output_values (bind (keccakStateToBytes empty_message_state)
        (\<lambda>bytestring. return (take 32 bytestring))) =
     Inr [197, 210, 70, 1, 134, 247, 35, 60, 146, 126, 125, 178, 220, 199, 3, 192, 229, 0, 182, 83, 202, 130, 39, 59, 123, 250, 216, 4, 93, 133, 164, 112]
   \<and> output_values (ethereum Big Little False []) \<noteq>
     output_values (bind (keccakStateToBytes empty_message_state)
        (\<lambda>bytestring. return (take 32 bytestring)))"
proof -
  have a: "output_values (ethereum Big Little False []) =
      Inr (rev [197, 210, 70, 1, 134, 247, 35, 60, 146, 126, 125, 178, 220, 199, 3, 192, 229, 0, 182, 83, 202, 130, 39, 59, 123, 250, 216, 4, 93, 133, 164, 112])"
    by (simp add: output_values_def ethereum_empty_run rev_map [symmetric]
        empty_message_digest_bytes del: rev.simps)
  have b: "ebind (pad101 [] 1088)
        (\<lambda>padded. absorb padded 512 1088 (map Field_from ROUND_CONSTANTS)) =
      Inr empty_message_state"
    by (simp only: pad101_empty ebind_Inr absorb_empty_message Field_from_round_constants
        permutation_empty_message_block)
  have c: "output_values (bind (keccakStateToBytes empty_message_state)
        (\<lambda>bytestring. return (take 32 bytestring))) =
      Inr [197, 210, 70, 1, 134, 247, 35, 60, 146, 126, 125, 178, 220, 199, 3, 192, 229, 0, 182, 83, 202, 130, 39, 59, 123, 250, 216, 4, 93, 133, 164, 112]"
    by (simp add: output_values_def bind_apply keccakStateToBytes_apply
        empty_message_digest_bytes)
  show ?thesis
    using a b c by simp
qed

section \<open>Squeezing more than one chunk\<close>

lemma take_two_chunks:
  assumes "0 < n" and "n \<le> length b1" and "n \<le> length b2"
  shows "take (Suc n) (copy (take n b2) (copy (take n b1) (replicate (2 * n) z) 0 n) n n) =
           take n b1 @ [b2 ! 0]"
  using assms by (intro nth_equalityI) (auto simp: nth_copy nth_append)

lemma byteOfState_zero_state:
  assumes "i < 200"
  shows "byteOfState getKeccakStateZeros i = 0"
proof -
  have "i div 8 div 5 < 5" using assms by simp
  then show ?thesis
    by (simp add: byteOfState_def Let_def getKeccakStateZeros_def lane_def KECCAK_DIM_def
        BYTES_PER_WORD_def KECCAK_WORD_def KECCAK_ELL_def Field_from_def)
qed

lemma zero_state_byte_values:
  "map toBigInt (witnessedBytes getKeccakStateZeros w) = replicate 200 0"
  by (intro nth_equalityI) (simp_all add: witnessedBytes_def byteOfState_zero_state del: upt_Suc)

lemma zero_state_permuted_first_byte:
  "toBigInt (witnessedBytes zero_state_permuted w ! 0) = 231"
  by (simp add: witnessedBytes_def byteOfState_def Let_def BYTES_PER_WORD_def KECCAK_WORD_def
      KECCAK_ELL_def KECCAK_DIM_def lane_def zero_state_permuted_def ORDER_def
      del: upt_Suc)

lemma two_chunks_137:
  assumes "length b1 = 200" and "length b2 = 200"
  shows "take 137 (copy (take 136 b2) (copy (take 136 b1) (replicate 272 z) 0 136) 136 136) =
           take 136 b1 @ [b2 ! 0]"
proof -
  have "take (Suc 136) (copy (take 136 b2) (copy (take 136 b1) (replicate (2 * 136) z) 0 136)
          136 136) = take 136 b1 @ [b2 ! 0]"
    by (rule take_two_chunks) (simp_all add: assms)
  then show ?thesis by simp
qed

lemma squeeze_two_chunks:
  "squeeze state 1096 1088 rc c =
     (Inr (take 136 (witnessedBytes state (witnesses c))
           @ [witnessedBytes state (witnesses c + 200) ! 0]),
      c\<lparr>witnesses := witnesses c + 400,
        constraints :=
          wordChecks state (witnessedBytes state (witnesses c + 200)) @
          wordChecks state (witnessedBytes state (witnesses c)) @ constraints c\<rparr>)"
proof -
  have upt: "[1..<2] = [1::nat]" by (simp add: upt_rec)
  show ?thesis
    by (simp add: squeeze_def upt Array_fill_def bind_apply keccakStateToBytes_apply slice_def
        Let_def two_chunks_137)
qed

lemma squeeze_spec_two_chunks:
  "squeeze_spec state 1096 1088 rc c =
     (Inr (take 136 (witnessedBytes state (witnesses c))
           @ [witnessedBytes (permutation state rc) (witnesses c + 200) ! 0]),
      c\<lparr>witnesses := witnesses c + 400,
        constraints :=
          wordChecks (permutation state rc)
            (witnessedBytes (permutation state rc) (witnesses c + 200)) @
          wordChecks state (witnessedBytes state (witnesses c)) @ constraints c\<rparr>)"
proof -
  have upt: "[1..<2] = [1::nat]" by (simp add: upt_rec)
  show ?thesis
    by (simp add: squeeze_spec_def upt Array_fill_def bind_apply keccakStateToBytes_apply
        slice_def Let_def two_chunks_137)
qed

text \<open>
  Claim C2. The source does not do what the claim describes. Inside the loop of \<open>squeeze\<close>
  the permutation is applied to \<open>newState\<close>, but the bytes of the chunk are taken from
  \<open>keccakStateToBytes(state)\<close>, the state that was passed in: every chunk after the first
  repeats the first. On the all-zero state with length 1096 and rate 1088 (137 output
  bytes, two chunks) \<open>squeeze\<close> returns 137 zero bytes, whereas extracting the second
  chunk from the newly permuted state, as \<open>squeeze_spec\<close> does, gives \<open>0xe7\<close> as byte 137.
\<close>

theorem squeeze_repeats_first_chunk:
  "output_values (squeeze getKeccakStateZeros 1096 1088 (map Field_from ROUND_CONSTANTS)) =
     Inr (replicate 137 0)
   \<and> output_values (squeeze_spec getKeccakStateZeros 1096 1088 (map Field_from ROUND_CONSTANTS)) =
     Inr (replicate 136 0 @ [231])"
proof -
  have first: "map toBigInt (take 136 (witnessedBytes getKeccakStateZeros w)) = replicate 136 0"
    for w
    using zero_state_byte_values [of w] by (simp add: take_map [symmetric])
  have again: "toBigInt (witnessedBytes getKeccakStateZeros w ! 0) = 0" for w
    by (simp add: witnessedBytes_def byteOfState_zero_state del: upt_Suc)
  have code: "output_values (squeeze getKeccakStateZeros 1096 1088 (map Field_from ROUND_CONSTANTS)) =
      Inr (replicate 136 0 @ [0])"
    by (simp add: output_values_def squeeze_two_chunks first again)
  have spec: "output_values
        (squeeze_spec getKeccakStateZeros 1096 1088 (map Field_from ROUND_CONSTANTS)) =
      Inr (replicate 136 0 @ [231])"
    by (simp add: output_values_def squeeze_spec_two_chunks first Field_from_round_constants
        permutation_zero zero_state_permuted_first_byte)
  have "replicate 136 (0::nat) @ [0] = replicate (Suc 136) 0"
    by (simp only: replicate_append_same replicate_Suc)
  then have "replicate 136 (0::nat) @ [0] = replicate 137 0"
    by simp
  then show ?thesis using code spec by simp
qed

section \<open>Witnesses and the constraints that mention them\<close>

lemma vars_add [simp]: "vars (add a b) = vars a @ vars b"
  by (simp add: add_def)

lemma vars_mul [simp]: "vars (mul a b) = vars a @ vars b"
  by (simp add: mul_def)

lemma vars_Field_from [simp]: "vars (Field_from c) = []"
  by (simp add: Field_from_def)










end
